theory Spec2Isabelle
  imports Main
begin

section \<open>Events, errors and panics\<close>

text \<open>
  The Go package \<^verbatim>\<open>shopifywebhook\<close> is embedded function by function. A Go struct is a
  record, a Go map is a partial function, a value of interface or function type that may
  be \<^verbatim>\<open>nil\<close> is an \<open>option\<close>. A returned \<^verbatim>\<open>error\<close> is an \<open>error option\<close>
  (\<open>None\<close> is \<^verbatim>\<open>nil\<close>); a panic is the left injection of a sum. Handlers and observers
  are application code with side effects: they are state transformers over a world
  \<open>'w\<close> chosen by the application, and every function of the package that calls them
  threads the world through in the order of the source.
\<close>

type_synonym Topic = string

text \<open>Instants of the monotonic clock and \<^verbatim>\<open>time.Duration\<close> values, both in nanoseconds.\<close>

type_synonym Time = int
type_synonym Duration = int

record Metadata =
  Topic :: Topic
  HmacSHA256 :: string
  ShopDomain :: string
  WebhookID :: string
  EventID :: string
  TriggeredAt :: Time
  APIVersion :: string

record Event =
  Metadata :: Metadata
  RawBody :: string

text \<open>
  The sentinel errors of \<^verbatim>\<open>errors.go\<close>. \<open>ErrUnhandledTopic\<close> carries the topic that
  \<^verbatim>\<open>fmt.Errorf("%w: %s", ErrUnhandledTopic, topic)\<close> wraps; \<open>AppError\<close> stands for the
  errors of application handlers and of pluggable stores; \<open>DeadlineExceeded\<close> and
  \<open>Canceled\<close> are the two values of \<^verbatim>\<open>ctx.Err()\<close>.
\<close>

datatype error =
  ErrInvalidSignature
  | ErrMissingSignature
  | ErrMissingTopic
  | ErrUnhandledTopic Topic
  | ErrQueueFull
  | AppError string
  | DeadlineExceeded
  | Canceled

datatype panic =
  PanicHandlerAlreadyRegistered Topic
  | PanicNilFunc
  | PanicSendOnClosedChannel
  | PanicCloseOfClosedChannel
  | PanicMakechanSize
  | PanicNegativeWaitGroup

type_synonym 'w HandlerFunc = "Event \<Rightarrow> 'w \<Rightarrow> error option \<times> 'w"
type_synonym 'w ErrorHandlerFunc = "Event \<Rightarrow> error \<Rightarrow> 'w \<Rightarrow> 'w"

section \<open>Router (router.go)\<close>

text \<open>
  The struct \<^verbatim>\<open>Router\<close> without its mutex: every method holds the lock for the whole
  access to the fields, so a method is one atomic step on the record. A value of the
  map may be a \<^verbatim>\<open>nil\<close> function (\<^verbatim>\<open>Handle\<close> does not check its argument).
\<close>

record 'w Router =
  handlers :: "Topic \<rightharpoonup> 'w HandlerFunc option"
  fallback :: "'w HandlerFunc option"
  onError :: "'w ErrorHandlerFunc option"

definition WithErrorHandler :: "'w ErrorHandlerFunc option \<Rightarrow> 'w Router \<Rightarrow> 'w Router" where
  "WithErrorHandler fn r = r\<lparr>Router.onError := fn\<rparr>"

definition NewRouter :: "('w Router \<Rightarrow> 'w Router) list \<Rightarrow> 'w Router" where
  "NewRouter opts =
     fold (\<lambda>opt r. opt r) opts
       \<lparr>handlers = Map.empty, fallback = None, Router.onError = None\<rparr>"

text \<open>
  \<^verbatim>\<open>Handle\<close> mutates the router behind a pointer: the model returns the router after
  the call beside the outcome. On the panic nothing has been written.
\<close>

definition Handle ::
  "Topic \<Rightarrow> 'w HandlerFunc option \<Rightarrow> 'w Router \<Rightarrow> (panic + unit) \<times> 'w Router" where
  "Handle topic handler r =
     (case handlers r topic of
        Some _ \<Rightarrow> (Inl (PanicHandlerAlreadyRegistered topic), r)
      | None \<Rightarrow> (Inr (), r\<lparr>handlers := (handlers r)(topic \<mapsto> handler)\<rparr>))"

definition Fallback :: "'w HandlerFunc option \<Rightarrow> 'w Router \<Rightarrow> 'w Router" where
  "Fallback handler r = r\<lparr>fallback := handler\<rparr>"

text \<open>
  \<^verbatim>\<open>Dispatch\<close>: the lookup (\<open>ok\<close> is whether the topic is a key of the map), the
  fallback when it is not, the early return of \<open>ErrUnhandledTopic\<close>, then the call of
  the chosen function and, on an error, of the observer. Calling a \<^verbatim>\<open>nil\<close> function
  panics.
\<close>

definition Dispatch :: "'w Router \<Rightarrow> Event \<Rightarrow> 'w \<Rightarrow> (panic + error option) \<times> 'w" where
  "Dispatch r event w =
     (let topic = Topic (Metadata event) in
      case (case handlers r topic of
              Some handler \<Rightarrow> Inr handler
            | None \<Rightarrow>
                (case fallback r of
                   Some f \<Rightarrow> Inr (Some f)
                 | None \<Rightarrow> Inl (ErrUnhandledTopic topic))) of
        Inl err \<Rightarrow> (Inr (Some err), w)
      | Inr None \<Rightarrow> (Inl PanicNilFunc, w)
      | Inr (Some handler) \<Rightarrow>
          (case handler event w of
             (None, w') \<Rightarrow> (Inr None, w')
           | (Some err, w') \<Rightarrow>
               (Inr (Some err),
                (case Router.onError r of
                   Some observer \<Rightarrow> observer event err w'
                 | None \<Rightarrow> w'))))"

definition Topics :: "'w Router \<Rightarrow> Topic set" where
  "Topics r = dom (handlers r)"

section \<open>The world of a running process\<close>

text \<open>
  The part of the environment the package itself reads and writes is the clock:
  \<^verbatim>\<open>time.Now\<close>, \<^verbatim>\<open>time.Since\<close> and \<^verbatim>\<open>time.Sleep\<close>. A world with a clock is a record
  with the field \<open>clock\<close>; what the application keeps beside it is the record's
  extension. \<^verbatim>\<open>time.Sleep(d)\<close> returns at once when \<open>d\<close> is zero or negative and
  otherwise pauses for \<open>d\<close> (the least pause its contract allows).
\<close>

record World =
  clock :: Time

definition Sleep :: "Duration \<Rightarrow> 'a World_scheme \<Rightarrow> 'a World_scheme" where
  "Sleep d w = (if d \<le> 0 then w else w\<lparr>clock := clock w + d\<rparr>)"

definition Millisecond :: Duration where
  "Millisecond = 1000000"

text \<open>
  Go's \<^verbatim>\<open>int\<close> (on 64-bit targets) and \<^verbatim>\<open>time.Duration\<close> are 64-bit signed integers
  whose arithmetic wraps around. The model computes in \<open>int\<close> and writes the wrap-around
  out where the source adds or multiplies.
\<close>

definition wrap64 :: "int \<Rightarrow> int" where
  "wrap64 x = (x + 2 ^ 63) mod 2 ^ 64 - 2 ^ 63"

section \<open>Worker pool (the source with retries, src/unnamed/part_008)\<close>

text \<open>
  A buffered Go channel: the buffer and its capacity, the number of goroutines parked in
  a receive, the values handed directly to parked receivers, and whether the channel has
  been closed.
\<close>

record 'a chan =
  buf :: "'a list"
  cap :: nat
  recvq :: nat
  handed :: "'a list"
  closed :: bool

datatype 'a send_result = SendPanics | Sent "'a chan" | WouldBlock

text \<open>
  \<^verbatim>\<open>select { case c <- x: ... default: ... }\<close>: a send on a closed channel panics; a
  parked receiver takes the value directly; otherwise the value goes into the buffer if
  it has room; otherwise the send cannot proceed and the default case runs.
\<close>

definition select_send :: "'a chan \<Rightarrow> 'a \<Rightarrow> 'a send_result" where
  "select_send c x =
     (if closed c then SendPanics
      else if 0 < recvq c then Sent (c\<lparr>recvq := recvq c - 1, handed := handed c @ [x]\<rparr>)
      else if length (buf c) < cap c then Sent (c\<lparr>buf := buf c @ [x]\<rparr>)
      else WouldBlock)"

text \<open>
  The send of a \<^verbatim>\<open>select\<close> with a default case cannot proceed on an open channel
  exactly when no receiver is parked and the buffer has no room: the queue is full.
\<close>

definition queue_full :: "'a chan \<Rightarrow> bool" where
  "queue_full c = (recvq c = 0 \<and> cap c \<le> length (buf c))"

record 'w work =
  event :: Event
  router :: "'w Router"
  attempt :: int

record 'w workerPoolConfig =
  onError :: "'w ErrorHandlerFunc option"
  maxRetries :: int
  baseDelay :: Duration

text \<open>
  The struct \<^verbatim>\<open>WorkerPool\<close>; \<open>wg\<close> is the counter of the wait group (the workers that
  have not returned).
\<close>

record 'w WorkerPool =
  queue :: "'w work chan"
  wg :: int
  onError :: "'w ErrorHandlerFunc option"
  maxRetries :: int
  baseDelay :: Duration
  closing :: bool

definition WithPoolErrorHandler ::
  "'w ErrorHandlerFunc option \<Rightarrow> 'w workerPoolConfig \<Rightarrow> 'w workerPoolConfig" where
  "WithPoolErrorHandler fn c = c\<lparr>workerPoolConfig.onError := fn\<rparr>"

definition WithMaxRetries :: "int \<Rightarrow> 'w workerPoolConfig \<Rightarrow> 'w workerPoolConfig" where
  "WithMaxRetries n c = c\<lparr>workerPoolConfig.maxRetries := n\<rparr>"

definition WithRetryBaseDelay :: "Duration \<Rightarrow> 'w workerPoolConfig \<Rightarrow> 'w workerPoolConfig" where
  "WithRetryBaseDelay d c = c\<lparr>workerPoolConfig.baseDelay := d\<rparr>"

text \<open>
  \<^verbatim>\<open>NewWorkerPool\<close>: the configuration starts from the zero value with the base delay
  set to 500 ms, the options run in order, then the channel is made (a negative size
  panics) and the wait group is raised by the number of workers (a negative counter
  panics). The workers started by the loop are the goroutines counted by \<open>wg\<close>; none
  is parked yet.
\<close>

definition NewWorkerPool ::
  "int \<Rightarrow> int \<Rightarrow> ('w workerPoolConfig \<Rightarrow> 'w workerPoolConfig) list \<Rightarrow> panic + 'w WorkerPool" where
  "NewWorkerPool workers queueSize opts =
     (let cfg = fold (\<lambda>opt c. opt c) opts
                  \<lparr>workerPoolConfig.onError = None, workerPoolConfig.maxRetries = 0,
                   workerPoolConfig.baseDelay = 500 * Millisecond\<rparr>
      in if queueSize < 0 then Inl PanicMakechanSize
         else if workers < 0 then Inl PanicNegativeWaitGroup
         else Inr \<lparr>queue = \<lparr>buf = [], cap = nat queueSize, recvq = 0, handed = [],
                              closed = False\<rparr>,
                    wg = workers,
                    WorkerPool.onError = workerPoolConfig.onError cfg,
                    WorkerPool.maxRetries = workerPoolConfig.maxRetries cfg,
                    WorkerPool.baseDelay = workerPoolConfig.baseDelay cfg,
                    closing = False\<rparr>)"

text \<open>
  \<^verbatim>\<open>time.Duration(math.Pow(2, float64(attempt)))\<close>: for \<open>0 \<le> attempt < 63\<close> the power
  is an exact float and the conversion is exact. From 63 on the float is outside the
  range of \<^verbatim>\<open>int64\<close> and Go leaves the conversion to the platform; the value taken
  here is the one of amd64, the least \<^verbatim>\<open>int64\<close>.
\<close>

definition pow2_duration :: "int \<Rightarrow> Duration" where
  "pow2_duration n = (if n < 63 then 2 ^ nat n else - (2 ^ 63))"

definition retry_delay :: "'w WorkerPool \<Rightarrow> int \<Rightarrow> Duration" where
  "retry_delay wp n = wrap64 (WorkerPool.baseDelay wp * pow2_duration n)"

text \<open>
  The loop of \<^verbatim>\<open>processWithRetry\<close>, \<^verbatim>\<open>for attempt := range wp.maxRetries + 1\<close>, from
  the iteration \<open>n\<close> on; \<open>bound\<close> is the value of the range expression, evaluated
  once. A panic of the dispatch (a \<^verbatim>\<open>nil\<close> handler) leaves the loop. After the
  observer has been called the source has no \<^verbatim>\<open>return\<close>: the loop goes on to the
  next iteration.
\<close>

function retry_loop ::
  "'a World_scheme WorkerPool \<Rightarrow> 'a World_scheme work \<Rightarrow> int \<Rightarrow> int \<Rightarrow> 'a World_scheme
     \<Rightarrow> (panic + unit) \<times> 'a World_scheme" where
  "retry_loop wp wk bound n w =
     (if n < bound then
        (case Dispatch (router wk) (event wk) w of
           (Inl p, w') \<Rightarrow> (Inl p, w')
         | (Inr None, w') \<Rightarrow> (Inr (), w')
         | (Inr (Some err), w') \<Rightarrow>
             (if n < WorkerPool.maxRetries wp
              then retry_loop wp wk bound (n + 1) (Sleep (retry_delay wp n) w')
              else retry_loop wp wk bound (n + 1)
                     (case WorkerPool.onError wp of
                        Some observer \<Rightarrow> observer (event wk) err w'
                      | None \<Rightarrow> w')))
      else (Inr (), w))"
  by pat_completeness auto
termination
  by (relation "measure (\<lambda>(wp, wk, bound, n, w). nat (bound - n))") auto

declare retry_loop.simps [simp del]

definition processWithRetry ::
  "'a World_scheme WorkerPool \<Rightarrow> 'a World_scheme work \<Rightarrow> 'a World_scheme
     \<Rightarrow> (panic + unit) \<times> 'a World_scheme" where
  "processWithRetry wp wk w = retry_loop wp wk (wrap64 (WorkerPool.maxRetries wp + 1)) 0 w"

text \<open>
  \<^verbatim>\<open>Submit\<close>: the non-blocking send of a new work item, and in the default case the
  observer, when there is one, with \<open>ErrQueueFull\<close>. The field \<open>closing\<close> is not read.
\<close>

definition WorkerPool_Submit ::
  "Event \<Rightarrow> 'w Router \<Rightarrow> 'w WorkerPool \<Rightarrow> 'w \<Rightarrow> (panic + unit) \<times> 'w WorkerPool \<times> 'w" where
  "WorkerPool_Submit ev rt wp w =
     (case select_send (queue wp) \<lparr>event = ev, router = rt, attempt = 0\<rparr> of
        SendPanics \<Rightarrow> (Inl PanicSendOnClosedChannel, wp, w)
      | Sent q \<Rightarrow> (Inr (), wp\<lparr>queue := q\<rparr>, w)
      | WouldBlock \<Rightarrow>
          (Inr (), wp,
           (case WorkerPool.onError wp of
              Some observer \<Rightarrow> observer ev ErrQueueFull w
            | None \<Rightarrow> w)))"

text \<open>
  \<^verbatim>\<open>Shutdown\<close>: sets \<open>closing\<close>, closes the queue (closing a closed channel panics)
  and waits for the workers or for the context, whichever is first. Which one is first
  is decided by the scheduler: \<open>ctx_err\<close> is \<open>None\<close> when the workers were done first
  and the context's error when the context was.
\<close>

definition WorkerPool_Shutdown ::
  "error option \<Rightarrow> 'w WorkerPool \<Rightarrow> (panic + error option) \<times> 'w WorkerPool" where
  "WorkerPool_Shutdown ctx_err wp =
     (let wp1 = wp\<lparr>closing := True\<rparr> in
      if closed (queue wp1) then (Inl PanicCloseOfClosedChannel, wp1)
      else (Inr ctx_err, wp1\<lparr>queue := (queue wp1)\<lparr>closed := True\<rparr>\<rparr>))"

section \<open>Deduplication store (src/unnamed/part_004)\<close>

text \<open>
  The struct \<^verbatim>\<open>MemoryStore\<close>: the map from event id to the instant it was recorded,
  the time to live, and whether the channel that stops the sweeper has been closed. The
  methods read the clock once (\<^verbatim>\<open>time.Since\<close>, \<^verbatim>\<open>time.Now\<close>): the reading is the
  argument \<open>now\<close>. The difference of two instants is taken exactly (\<^verbatim>\<open>time.Since\<close>
  saturates only beyond 292 years).
\<close>

record MemoryStore =
  entries :: "string \<rightharpoonup> Time"
  ttl :: Duration
  done_closed :: bool

definition NewMemoryStore :: "Duration \<Rightarrow> MemoryStore" where
  "NewMemoryStore d = \<lparr>entries = Map.empty, ttl = d, done_closed = False\<rparr>"

definition MemoryStore_Exists :: "MemoryStore \<Rightarrow> Time \<Rightarrow> string \<Rightarrow> bool \<times> error option" where
  "MemoryStore_Exists s now eventID =
     (case entries s eventID of
        None \<Rightarrow> (False, None)
      | Some ts \<Rightarrow> if now - ts > ttl s then (False, None) else (True, None))"

definition MemoryStore_Store :: "MemoryStore \<Rightarrow> Time \<Rightarrow> string \<Rightarrow> error option \<times> MemoryStore" where
  "MemoryStore_Store s now eventID = (None, s\<lparr>entries := (entries s)(eventID \<mapsto> now)\<rparr>)"

text \<open>
  One firing of the ticker in \<^verbatim>\<open>cleanup\<close>: under the lock, every entry older than the
  time to live at the instant \<open>now\<close> is deleted.
\<close>

definition cleanup_tick :: "MemoryStore \<Rightarrow> Time \<Rightarrow> MemoryStore" where
  "cleanup_tick s now =
     s\<lparr>entries :=
         (\<lambda>eventID. case entries s eventID of
                      None \<Rightarrow> None
                    | Some ts \<Rightarrow> if now - ts > ttl s then None else Some ts)\<rparr>"

text \<open>
  A history of a store: the calls of \<^verbatim>\<open>Store\<close> and the firings of the sweeper, each with
  the instant at which it read the clock, in the order in which they took the lock.
\<close>

datatype store_op = OpStore string | OpSweep

fun apply_op :: "MemoryStore \<Rightarrow> Time \<times> store_op \<Rightarrow> MemoryStore" where
  "apply_op s (t, OpStore eventID) = snd (MemoryStore_Store s t eventID)"
| "apply_op s (t, OpSweep) = cleanup_tick s t"

definition run_history :: "MemoryStore \<Rightarrow> (Time \<times> store_op) list \<Rightarrow> MemoryStore" where
  "run_history s ops = foldl apply_op s ops"

section \<open>The all-in-one handler (middleware.go)\<close>

text \<open>
  The two interfaces of the package as records of their methods. An implementation has
  a state of its own (\<open>'d\<close> for a store, \<open>'p\<close> for a processor); a store may read the
  world (the clock, for one), a processor gets the world because it may call the
  application's observer.
\<close>

record ('d, 'w) IdempotencyStore =
  Exists :: "'w \<Rightarrow> string \<Rightarrow> 'd \<Rightarrow> (bool \<times> error option) \<times> 'd"
  Store :: "'w \<Rightarrow> string \<Rightarrow> 'd \<Rightarrow> error option \<times> 'd"

record ('p, 'w) AsyncProcessor =
  Submit :: "Event \<Rightarrow> 'w Router \<Rightarrow> 'p \<Rightarrow> 'w \<Rightarrow> (panic + unit) \<times> 'p \<times> 'w"
  Shutdown :: "error option \<Rightarrow> 'p \<Rightarrow> (panic + error option) \<times> 'p"

definition MemoryStore_iface :: "(MemoryStore, 'a World_scheme) IdempotencyStore" where
  "MemoryStore_iface =
     \<lparr>Exists = (\<lambda>w eventID s. (MemoryStore_Exists s (clock w) eventID, s)),
      Store = (\<lambda>w eventID s. MemoryStore_Store s (clock w) eventID)\<rparr>"

definition WorkerPool_iface :: "('w WorkerPool, 'w) AsyncProcessor" where
  "WorkerPool_iface = \<lparr>Submit = WorkerPool_Submit, Shutdown = WorkerPool_Shutdown\<rparr>"

text \<open>
  The response writer: the status of the first \<^verbatim>\<open>WriteHeader\<close> and the body written.
\<close>

record ResponseWriter =
  status :: "nat option"
  body :: string

definition WriteHeader :: "nat \<Rightarrow> ResponseWriter \<Rightarrow> ResponseWriter" where
  "WriteHeader code rw = (case status rw of None \<Rightarrow> rw\<lparr>status := Some code\<rparr> | Some _ \<Rightarrow> rw)"

definition http_Error :: "string \<Rightarrow> nat \<Rightarrow> ResponseWriter \<Rightarrow> ResponseWriter" where
  "http_Error msg code rw = (WriteHeader code rw)\<lparr>body := body rw @ msg @ [CHR 0x0A]\<rparr>"

record ('d, 'p, 'w) handlerConfig =
  async :: "('p, 'w) AsyncProcessor option"
  dedup :: "('d, 'w) IdempotencyStore option"
  onVerifyError :: "error \<Rightarrow> ResponseWriter \<Rightarrow> ResponseWriter"
  onParseError :: "error \<Rightarrow> ResponseWriter \<Rightarrow> ResponseWriter"

definition default_handlerConfig :: "('d, 'p, 'w) handlerConfig" where
  "default_handlerConfig =
     \<lparr>async = None, dedup = None,
      onVerifyError = (\<lambda>err. http_Error ''Unauthorized'' 401),
      onParseError = (\<lambda>err. http_Error ''Bad Request'' 400)\<rparr>"

definition WithAsyncProcessor ::
  "('p, 'w) AsyncProcessor option \<Rightarrow> ('d, 'p, 'w) handlerConfig \<Rightarrow> ('d, 'p, 'w) handlerConfig" where
  "WithAsyncProcessor p c = c\<lparr>async := p\<rparr>"

definition WithIdempotencyStore ::
  "('d, 'w) IdempotencyStore option \<Rightarrow> ('d, 'p, 'w) handlerConfig \<Rightarrow> ('d, 'p, 'w) handlerConfig" where
  "WithIdempotencyStore s c = c\<lparr>dedup := s\<rparr>"

text \<open>
  What one request runs on: the state of the store, the state of the processor, the
  world of the application and the response being written.
\<close>

record ('d, 'p, 'w) serving =
  dedup_state :: 'd
  async_state :: 'p
  world :: 'w
  response :: ResponseWriter

text \<open>
  The second half of the function \<^verbatim>\<open>Handler\<close> returns (middleware.go, lines 122 to 134),
  reached when the event is not a known duplicate: respond 200, hand the event to the
  processor or dispatch it in place (the error of the dispatch is dropped), then mark the
  event in the store (the error of the store is dropped). A panic of the hand-over
  leaves the function.
\<close>

definition Handler_process ::
  "'w Router \<Rightarrow> ('d, 'p, 'w) handlerConfig \<Rightarrow> Event \<Rightarrow> ('d, 'p, 'w) serving
     \<Rightarrow> (panic + unit) \<times> ('d, 'p, 'w) serving" where
  "Handler_process rt cfg ev st =
     (let st1 = st\<lparr>response := WriteHeader 200 (response st)\<rparr> in
      case (case async cfg of
              Some a \<Rightarrow>
                (case Submit a ev rt (async_state st1) (world st1) of
                   (res, p', w') \<Rightarrow> (res, st1\<lparr>async_state := p', world := w'\<rparr>))
            | None \<Rightarrow>
                (case Dispatch rt ev (world st1) of
                   (Inl p, w') \<Rightarrow> (Inl p, st1\<lparr>world := w'\<rparr>)
                 | (Inr _, w') \<Rightarrow> (Inr (), st1\<lparr>world := w'\<rparr>))) of
        (Inl p, st2) \<Rightarrow> (Inl p, st2)
      | (Inr _, st2) \<Rightarrow>
          (case dedup cfg of
             Some store \<Rightarrow>
               (Inr (),
                st2\<lparr>dedup_state :=
                      snd (Store store (world st2) (EventID (Metadata ev)) (dedup_state st2))\<rparr>)
           | None \<Rightarrow> (Inr (), st2)))"

text \<open>
  The function \<^verbatim>\<open>Handler\<close> returns. \<open>verified\<close> is the result of
  \<^verbatim>\<open>VerifyRequest(secret, r)\<close> and \<open>parsed\<close> the result of
  \<^verbatim>\<open>ParseMetadata(r.Header)\<close>; the second is not computed when the first failed.
  Then the check of the store (middleware.go, lines 111 to 120).
\<close>

definition Handler ::
  "'w Router \<Rightarrow> ('d, 'p, 'w) handlerConfig \<Rightarrow> error + string \<Rightarrow> error + Metadata
     \<Rightarrow> ('d, 'p, 'w) serving \<Rightarrow> (panic + unit) \<times> ('d, 'p, 'w) serving" where
  "Handler rt cfg verified parsed st =
     (case verified of
        Inl err \<Rightarrow> (Inr (), st\<lparr>response := onVerifyError cfg err (response st)\<rparr>)
      | Inr raw \<Rightarrow>
          (case parsed of
             Inl err \<Rightarrow> (Inr (), st\<lparr>response := onParseError cfg err (response st)\<rparr>)
           | Inr meta \<Rightarrow>
               (let ev = \<lparr>Metadata = meta, RawBody = raw\<rparr> in
                case dedup cfg of
                  None \<Rightarrow> Handler_process rt cfg ev st
                | Some store \<Rightarrow>
                    (case Exists store (world st) (EventID (Metadata ev)) (dedup_state st) of
                       ((processed, checkErr), d') \<Rightarrow>
                         (case checkErr of
                            None \<Rightarrow>
                              if processed
                              then (Inr (),
                                    st\<lparr>dedup_state := d',
                                       response := WriteHeader 200 (response st)\<rparr>)
                              else Handler_process rt cfg ev (st\<lparr>dedup_state := d'\<rparr>)
                          | Some _ \<Rightarrow> Handler_process rt cfg ev (st\<lparr>dedup_state := d'\<rparr>))))))"

section \<open>A probing application for concrete runs\<close>

text \<open>
  A world that records what the application saw: the number of runs of the scripted
  handler, the pairs the pool's observer received, and a trail of the names of the
  functions that ran, in order.
\<close>

record Probe = World +
  calls :: nat
  observed :: "(Event \<times> error) list"
  trail :: "string list"

definition probe0 :: Probe where
  "probe0 = \<lparr>clock = 0, calls = 0, observed = [], trail = []\<rparr>"

definition mk_meta :: "Topic \<Rightarrow> string \<Rightarrow> Metadata" where
  "mk_meta topic eid =
     \<lparr>Topic = topic, HmacSHA256 = ''sig'', ShopDomain = ''test.myshopify.com'',
      WebhookID = ''webhook-456'', EventID = eid, TriggeredAt = 0,
      APIVersion = ''2025-01''\<rparr>"

definition mk_event :: "Topic \<Rightarrow> string \<Rightarrow> Event" where
  "mk_event topic eid = \<lparr>Metadata = mk_meta topic eid, RawBody = ''{}''\<rparr>"

definition log_ok :: "string \<Rightarrow> 'a Probe_scheme HandlerFunc" where
  "log_ok name ev w = (None, w\<lparr>trail := trail w @ [name]\<rparr>)"

definition log_fail :: "string \<Rightarrow> string \<Rightarrow> 'a Probe_scheme HandlerFunc" where
  "log_fail name msg ev w = (Some (AppError msg), w\<lparr>trail := trail w @ [name]\<rparr>)"

definition log_observer :: "'a Probe_scheme ErrorHandlerFunc" where
  "log_observer ev err w = w\<lparr>trail := trail w @ [''observer'']\<rparr>"

text \<open>
  A handler whose result is scripted: its \<open>k\<close>-th run (counted from 1 over the whole
  world) returns \<open>outcome k\<close>. The observer of the pool records the pair it is given.
\<close>

definition scripted :: "(nat \<Rightarrow> error option) \<Rightarrow> 'a Probe_scheme HandlerFunc" where
  "scripted outcome ev w = (outcome (Suc (calls w)), w\<lparr>calls := Suc (calls w)\<rparr>)"

definition record_failure :: "'a Probe_scheme ErrorHandlerFunc" where
  "record_failure ev err w = w\<lparr>observed := observed w @ [(ev, err)]\<rparr>"

definition demo_router :: "Probe Router" where
  "demo_router =
     snd (Handle ''orders/create'' (Some (log_ok ''H''))
       (snd (Handle ''products/update'' (Some (log_fail ''G'' ''processing failed''))
         (NewRouter [WithErrorHandler (Some log_observer)]))))"

text \<open>
  An observer of the router is quiet when it leaves the two probes alone.
\<close>

definition quiet :: "'a Probe_scheme ErrorHandlerFunc option \<Rightarrow> bool" where
  "quiet ob = (case ob of None \<Rightarrow> True
     | Some obs \<Rightarrow> \<forall>ev e w. calls (obs ev e w) = calls w \<and> observed (obs ev e w) = observed w)"

text \<open>
  Scripts: fail on every run before the \<open>k\<close>-th, and fail on every run.
\<close>

definition fails_before :: "nat \<Rightarrow> nat \<Rightarrow> error option" where
  "fails_before k i = (if i < k then Some (AppError ''boom'') else None)"

definition always_fails :: "nat \<Rightarrow> error option" where
  "always_fails i = Some (AppError ''boom'')"

text \<open>
  A router with the scripted handler and a logging observer, a work item for it, and
  three pools: one with two retries, the one \<^verbatim>\<open>NewWorkerPool(1, 1)\<close> returns, and one
  whose queue is full.
\<close>

definition retry_router :: "(nat \<Rightarrow> error option) \<Rightarrow> Probe Router" where
  "retry_router outcome =
     snd (Handle ''orders/create'' (Some (scripted outcome))
       (NewRouter [WithErrorHandler (Some log_observer)]))"

definition retry_work :: "(nat \<Rightarrow> error option) \<Rightarrow> Probe work" where
  "retry_work outcome =
     \<lparr>event = mk_event ''orders/create'' ''e1'', router = retry_router outcome, attempt = 0\<rparr>"

definition demo_pool :: "Probe WorkerPool" where
  "demo_pool =
     \<lparr>queue = \<lparr>buf = [], cap = 1, recvq = 0, handed = [], closed = False\<rparr>,
      wg = 1, WorkerPool.onError = Some record_failure, WorkerPool.maxRetries = 2,
      WorkerPool.baseDelay = 500 * Millisecond, closing = False\<rparr>"


definition full_pool :: "Probe WorkerPool" where
  "full_pool =
     demo_pool\<lparr>queue := (queue demo_pool)\<lparr>buf := [retry_work always_fails]\<rparr>\<rparr>"

text \<open>
  Two configurations of the handler with the in-memory store (time to live: one hour),
  one dispatching in place and one handing over to a pool, the states they start from
  (for the second, one with a pool whose queue is full and one with a pool whose queue
  has room), and an event whose handler fails.
\<close>

definition fresh_response :: ResponseWriter where
  "fresh_response = \<lparr>status = None, body = []\<rparr>"

definition sync_cfg :: "(MemoryStore, unit, Probe) handlerConfig" where
  "sync_cfg = WithIdempotencyStore (Some MemoryStore_iface) default_handlerConfig"

definition async_cfg :: "(MemoryStore, Probe WorkerPool, Probe) handlerConfig" where
  "async_cfg =
     WithAsyncProcessor (Some WorkerPool_iface)
       (WithIdempotencyStore (Some MemoryStore_iface) default_handlerConfig)"

definition sync_start :: "(MemoryStore, unit, Probe) serving" where
  "sync_start =
     \<lparr>dedup_state = NewMemoryStore 3600000000000, async_state = (), world = probe0,
      response = fresh_response\<rparr>"

definition async_start :: "(MemoryStore, Probe WorkerPool, Probe) serving" where
  "async_start =
     \<lparr>dedup_state = NewMemoryStore 3600000000000, async_state = full_pool, world = probe0,
      response = fresh_response\<rparr>"

definition async_ready :: "(MemoryStore, Probe WorkerPool, Probe) serving" where
  "async_ready =
     \<lparr>dedup_state = NewMemoryStore 3600000000000, async_state = demo_pool, world = probe0,
      response = fresh_response\<rparr>"

definition failing_event :: Event where
  "failing_event = \<lparr>Metadata = mk_meta ''products/update'' ''event-9'', RawBody = ''{}''\<rparr>"

section \<open>Properties of the router\<close>

lemma demo_router_fields:
  "handlers demo_router ''orders/create'' = Some (Some (log_ok ''H''))"
  "handlers demo_router ''products/update'' = Some (Some (log_fail ''G'' ''processing failed''))"
  "handlers demo_router ''carts/update'' = None"
  "fallback demo_router = None"
  "Router.onError demo_router = Some log_observer"
  by (simp_all add: demo_router_def Handle_def NewRouter_def WithErrorHandler_def)

text \<open>
  Claim C1. \<open>Dispatch\<close> decides on the event's topic. When a handler \<open>H\<close> is registered
  for the topic, the run is one call of \<open>H\<close> on the incoming world (followed by the
  error observer if \<open>H\<close> failed); the fallback does not occur in it. When the topic has
  no handler and a fallback \<open>F\<close> is set, the run is one call of \<open>F\<close>. When neither
  exists, \<open>Dispatch\<close> returns \<open>ErrUnhandledTopic\<close> for the topic and the world is the
  incoming one: no handler and no observer has run.
\<close>

theorem Dispatch_case_analysis:
  assumes "topic = Topic (Metadata ev)"
  shows "(handlers r topic = Some (Some H) \<longrightarrow>
            Dispatch r ev w =
              (case H ev w of
                 (None, w') \<Rightarrow> (Inr None, w')
               | (Some err, w') \<Rightarrow>
                   (Inr (Some err),
                    (case Router.onError r of Some obs \<Rightarrow> obs ev err w' | None \<Rightarrow> w'))))
       \<and> (handlers r topic = None \<and> fallback r = Some F \<longrightarrow>
            Dispatch r ev w =
              (case F ev w of
                 (None, w') \<Rightarrow> (Inr None, w')
               | (Some err, w') \<Rightarrow>
                   (Inr (Some err),
                    (case Router.onError r of Some obs \<Rightarrow> obs ev err w' | None \<Rightarrow> w'))))
       \<and> (handlers r topic = None \<and> fallback r = None \<longrightarrow>
            Dispatch r ev w = (Inr (Some (ErrUnhandledTopic topic)), w))"
proof (intro conjI impI)
  assume "handlers r topic = Some (Some H)"
  with assms show "Dispatch r ev w =
      (case H ev w of
         (None, w') \<Rightarrow> (Inr None, w')
       | (Some err, w') \<Rightarrow>
           (Inr (Some err),
            (case Router.onError r of Some obs \<Rightarrow> obs ev err w' | None \<Rightarrow> w')))"
    by (simp add: Dispatch_def)
next
  assume "handlers r topic = None \<and> fallback r = Some F"
  with assms show "Dispatch r ev w =
      (case F ev w of
         (None, w') \<Rightarrow> (Inr None, w')
       | (Some err, w') \<Rightarrow>
           (Inr (Some err),
            (case Router.onError r of Some obs \<Rightarrow> obs ev err w' | None \<Rightarrow> w')))"
    by (simp add: Dispatch_def)
next
  assume "handlers r topic = None \<and> fallback r = None"
  with assms show "Dispatch r ev w = (Inr (Some (ErrUnhandledTopic topic)), w)"
    by (simp add: Dispatch_def)
qed

theorem Dispatch_case_analysis_witness:
  "Dispatch (Fallback (Some (log_ok ''F'')) demo_router)
       (mk_event ''orders/create'' ''e1'') probe0 = (Inr None, probe0\<lparr>trail := [''H'']\<rparr>)
   \<and> Dispatch (Fallback (Some (log_ok ''F'')) demo_router)
       (mk_event ''carts/update'' ''e2'') probe0 = (Inr None, probe0\<lparr>trail := [''F'']\<rparr>)
   \<and> Dispatch demo_router (mk_event ''carts/update'' ''e3'') probe0
       = (Inr (Some (ErrUnhandledTopic ''carts/update'')), probe0)"
  using
    Dispatch_case_analysis [of "''orders/create''" "mk_event ''orders/create'' ''e1''"
      "Fallback (Some (log_ok ''F'')) demo_router" "log_ok ''H''" probe0 "log_ok ''F''"]
    Dispatch_case_analysis [of "''carts/update''" "mk_event ''carts/update'' ''e2''"
      "Fallback (Some (log_ok ''F'')) demo_router" "log_ok ''H''" probe0 "log_ok ''F''"]
    Dispatch_case_analysis [of "''carts/update''" "mk_event ''carts/update'' ''e3''"
      demo_router "log_ok ''H''" probe0 "log_ok ''F''"]
  by (simp add: demo_router_fields Fallback_def mk_event_def mk_meta_def log_ok_def probe0_def)

text \<open>
  Claim C6. Let \<open>h\<close> be the function \<open>Dispatch\<close> calls for the event: the handler
  registered for its topic, or the fallback when the topic has none. If \<open>h\<close> returns
  the error \<open>e\<close>, \<open>Dispatch\<close> returns that same \<open>e\<close>, and the world it returns is
  the one \<open>h\<close> left with the configured observer applied to \<open>(ev, e)\<close>: the observer
  has run inside the call, after the handler. If \<open>h\<close> returns no error, \<open>Dispatch\<close>
  returns none and the world is the one \<open>h\<close> left: the observer has not run.
\<close>

theorem Dispatch_handler_error_observed:
  assumes "handlers r (Topic (Metadata ev)) = Some (Some h)
           \<or> (handlers r (Topic (Metadata ev)) = None \<and> fallback r = Some h)"
  shows "(h ev w = (Some e, w') \<longrightarrow>
            Dispatch r ev w =
              (Inr (Some e),
               (case Router.onError r of Some obs \<Rightarrow> obs ev e w' | None \<Rightarrow> w')))
       \<and> (h ev w = (None, w') \<longrightarrow> Dispatch r ev w = (Inr None, w'))"
  using assms
proof (elim disjE conjE)
  assume "handlers r (Topic (Metadata ev)) = Some (Some h)"
  then show ?thesis by (simp add: Dispatch_def)
next
  assume "handlers r (Topic (Metadata ev)) = None" and "fallback r = Some h"
  then show ?thesis by (simp add: Dispatch_def)
qed

theorem Dispatch_handler_error_observed_witness:
  "Dispatch demo_router (mk_event ''products/update'' ''e1'') probe0
     = (Inr (Some (AppError ''processing failed'')), probe0\<lparr>trail := [''G'', ''observer'']\<rparr>)
   \<and> Dispatch demo_router (mk_event ''orders/create'' ''e2'') probe0
     = (Inr None, probe0\<lparr>trail := [''H'']\<rparr>)"
  using
    Dispatch_handler_error_observed [of demo_router "mk_event ''products/update'' ''e1''"
      "log_fail ''G'' ''processing failed''" probe0 "AppError ''processing failed''"
      "probe0\<lparr>trail := [''G'']\<rparr>"]
    Dispatch_handler_error_observed [of demo_router "mk_event ''orders/create'' ''e2''"
      "log_ok ''H''" probe0 "AppError ''processing failed''" "probe0\<lparr>trail := [''H'']\<rparr>"]
  by (simp add: demo_router_fields mk_event_def mk_meta_def log_ok_def log_fail_def
      log_observer_def probe0_def)

text \<open>
  Claim C7. A call of \<open>Handle\<close> for a topic that is already a key of the handler map
  panics, and the router after the call is the router before it: the function
  registered first is still the one mapped to the topic.
\<close>

theorem Handle_duplicate_panics:
  assumes "handlers r topic = Some h0"
  shows "Handle topic h1 r = (Inl (PanicHandlerAlreadyRegistered topic), r)
       \<and> handlers (snd (Handle topic h1 r)) topic = Some h0"
  using assms by (simp add: Handle_def)

theorem Handle_duplicate_panics_witness:
  "Handle ''orders/create'' (Some (log_ok ''second'')) demo_router
     = (Inl (PanicHandlerAlreadyRegistered ''orders/create''), demo_router)
   \<and> handlers (snd (Handle ''orders/create'' (Some (log_ok ''second'')) demo_router))
       ''orders/create'' = Some (Some (log_ok ''H''))"
  using Handle_duplicate_panics [of demo_router "''orders/create''" "Some (log_ok ''H'')"
      "Some (log_ok ''second'')"]
  by (simp add: demo_router_fields)

section \<open>Properties of the worker pool\<close>

subsection \<open>Arithmetic and the probes\<close>

lemma wrap64_id: "- (2 ^ 63) \<le> x \<Longrightarrow> x < 2 ^ 63 \<Longrightarrow> wrap64 x = x"
  unfolding wrap64_def by (simp add: mod_pos_pos_trivial)

lemma Sleep_probe [simp]:
  "calls (Sleep d w) = calls w" "observed (Sleep d w) = observed w"
  by (simp_all add: Sleep_def)

lemma retry_loop_stop: "bound \<le> n \<Longrightarrow> retry_loop wp wk bound n w = (Inr (), w)"
  by (subst retry_loop.simps) simp

lemma quiet_log_observer: "quiet (Some log_observer)"
  by (simp add: quiet_def log_observer_def)

lemma retry_router_fields:
  "handlers (retry_router outcome) ''orders/create'' = Some (Some (scripted outcome))"
  "Router.onError (retry_router outcome) = Some log_observer"
  by (simp_all add: retry_router_def Handle_def NewRouter_def WithErrorHandler_def)

lemma demo_pool_new:
  "NewWorkerPool 1 1 [WithPoolErrorHandler (Some record_failure), WithMaxRetries 2]
     = Inr demo_pool"
  by (simp add: NewWorkerPool_def WithPoolErrorHandler_def WithMaxRetries_def demo_pool_def)



subsection \<open>Retries\<close>

text \<open>
  One dispatch of the scripted handler: the result is the next entry of the script, the
  counter of runs goes up by one and the pool's observer has not been called.
\<close>

lemma Dispatch_scripted:
  assumes "handlers rt (Topic (Metadata ev)) = Some (Some (scripted outcome))"
    and "quiet (Router.onError rt)"
  shows "\<exists>w'. Dispatch rt ev w = (Inr (outcome (Suc (calls w))), w')
           \<and> calls w' = Suc (calls w) \<and> observed w' = observed w"
  using assms
  by (cases "outcome (Suc (calls w))"; cases "Router.onError rt")
     (auto simp add: Dispatch_def scripted_def quiet_def)

text \<open>
  The loop from iteration \<open>n\<close> on, when the script first succeeds at run \<open>K\<close> within
  the bound, and when it fails on every run up to the bound.
\<close>

lemma retry_loop_success:
  assumes H: "handlers (router wk) (Topic (Metadata (event wk))) = Some (Some (scripted outcome))"
    and Q: "quiet (Router.onError (router wk))"
    and K: "outcome K = None" "int K \<le> bound" "int K \<le> WorkerPool.maxRetries wp + 1"
  shows "0 \<le> n \<Longrightarrow> calls w = nat n \<Longrightarrow> nat n < K \<Longrightarrow>
         (\<forall>j. nat n < j \<and> j < K \<longrightarrow> outcome j \<noteq> None) \<Longrightarrow>
         fst (retry_loop wp wk bound n w) = Inr ()
         \<and> calls (snd (retry_loop wp wk bound n w)) = K
         \<and> observed (snd (retry_loop wp wk bound n w)) = observed w"
proof (induction "K - nat n" arbitrary: n w)
  case 0
  then show ?case by simp
next
  case (Suc d)
  from Dispatch_scripted [OF H Q, of w] obtain w' where
    D: "Dispatch (router wk) (event wk) w = (Inr (outcome (Suc (calls w))), w')"
    and c: "calls w' = Suc (calls w)" and o: "observed w' = observed w" by blast
  have nb: "n < bound" using Suc.prems K by linarith
  show ?case
  proof (cases "Suc (nat n) = K")
    case True
    then have "outcome (Suc (calls w)) = None" using K Suc.prems by simp
    then show ?thesis using D c o nb True Suc.prems
      by (subst (1 2 3) retry_loop.simps) simp
  next
    case False
    then have lt: "Suc (nat n) < K" using Suc.prems by linarith
    then obtain e where e: "outcome (Suc (calls w)) = Some e"
      using Suc.prems by (metis lessI not_None_eq)
    have nm: "n < WorkerPool.maxRetries wp" using lt K Suc.prems by linarith
    let ?w2 = "Sleep (retry_delay wp n) w'"
    have IH: "fst (retry_loop wp wk bound (n + 1) ?w2) = Inr ()
         \<and> calls (snd (retry_loop wp wk bound (n + 1) ?w2)) = K
         \<and> observed (snd (retry_loop wp wk bound (n + 1) ?w2)) = observed ?w2"
    proof (rule Suc.hyps(1))
      show "d = K - nat (n + 1)" using Suc.hyps(2) Suc.prems by linarith
      show "0 \<le> n + 1" using Suc.prems by simp
      show "calls ?w2 = nat (n + 1)" using c Suc.prems by (simp add: nat_add_distrib)
      show "nat (n + 1) < K" using lt Suc.prems by (simp add: nat_add_distrib)
      show "\<forall>j. nat (n + 1) < j \<and> j < K \<longrightarrow> outcome j \<noteq> None"
        using Suc.prems by (simp add: nat_add_distrib)
    qed
    show ?thesis using D e nb nm IH o
      by (subst (1 2 3) retry_loop.simps) simp
  qed
qed

lemma retry_loop_exhausted:
  assumes H: "handlers (router wk) (Topic (Metadata (event wk))) = Some (Some (scripted outcome))"
    and Q: "quiet (Router.onError (router wk))"
    and P: "WorkerPool.onError wp = None \<or> WorkerPool.onError wp = Some record_failure"
    and B: "bound = WorkerPool.maxRetries wp + 1"
  shows "0 \<le> n \<Longrightarrow> calls w = nat n \<Longrightarrow> n < bound \<Longrightarrow>
         (\<forall>j. nat n < j \<and> int j \<le> bound \<longrightarrow> outcome j \<noteq> None) \<Longrightarrow>
         fst (retry_loop wp wk bound n w) = Inr ()
         \<and> calls (snd (retry_loop wp wk bound n w)) = nat bound
         \<and> observed (snd (retry_loop wp wk bound n w))
             = observed w @ (case WorkerPool.onError wp of
                               None \<Rightarrow> []
                             | Some obs \<Rightarrow> [(event wk, the (outcome (nat bound)))])"
proof (induction "nat (bound - n)" arbitrary: n w)
  case 0
  then show ?case by simp
next
  case (Suc d)
  from Dispatch_scripted [OF H Q, of w] obtain w' where
    D: "Dispatch (router wk) (event wk) w = (Inr (outcome (Suc (calls w))), w')"
    and c: "calls w' = Suc (calls w)" and o: "observed w' = observed w" by blast
  have "outcome (Suc (nat n)) \<noteq> None" using Suc.prems by simp
  then obtain e where e: "outcome (Suc (calls w)) = Some e" using Suc.prems by auto
  show ?case
  proof (cases "n + 1 = bound")
    case True
    then have last: "\<not> n < WorkerPool.maxRetries wp" using B by simp
    have nb: "nat bound = Suc (nat n)" using True Suc.prems by linarith
    have stop: "retry_loop wp wk bound (n + 1) x = (Inr (), x)" for x
      using True by (subst retry_loop.simps) simp
    from P show ?thesis
    proof
      assume "WorkerPool.onError wp = None"
      then show ?thesis using D e last c o nb Suc.prems stop
        by (subst (1 2 3) retry_loop.simps) simp
    next
      assume "WorkerPool.onError wp = Some record_failure"
      then show ?thesis using D e last c o nb Suc.prems stop
        by (subst (1 2 3) retry_loop.simps) (simp add: record_failure_def)
    qed
  next
    case False
    then have nm: "n < WorkerPool.maxRetries wp" using B Suc.prems by linarith
    let ?w2 = "Sleep (retry_delay wp n) w'"
    have IH: "fst (retry_loop wp wk bound (n + 1) ?w2) = Inr ()
         \<and> calls (snd (retry_loop wp wk bound (n + 1) ?w2)) = nat bound
         \<and> observed (snd (retry_loop wp wk bound (n + 1) ?w2))
             = observed ?w2 @ (case WorkerPool.onError wp of
                                 None \<Rightarrow> []
                               | Some obs \<Rightarrow> [(event wk, the (outcome (nat bound)))])"
    proof (rule Suc.hyps(1))
      show "d = nat (bound - (n + 1))" using Suc.hyps(2) by linarith
      show "0 \<le> n + 1" using Suc.prems by simp
      show "calls ?w2 = nat (n + 1)" using c Suc.prems by (simp add: nat_add_distrib)
      show "n + 1 < bound" using False Suc.prems by linarith
      show "\<forall>j. nat (n + 1) < j \<and> int j \<le> bound \<longrightarrow> outcome j \<noteq> None"
        using Suc.prems by (simp add: nat_add_distrib)
    qed
    show ?thesis using D e nm IH o Suc.prems
      by (subst (1 2 3) retry_loop.simps) simp
  qed
qed

lemma retry_bound:
  assumes R: "0 \<le> R" "R < 2 ^ 63 - 1" "WorkerPool.maxRetries wp = R"
  shows "wrap64 (WorkerPool.maxRetries wp + 1) = R + 1"
  using R by (simp add: wrap64_id)

lemma retry_from_start_success:
  assumes R: "0 \<le> R" "WorkerPool.maxRetries wp = R"
    and H: "handlers (router wk) (Topic (Metadata (event wk))) = Some (Some (scripted outcome))"
    and Q: "quiet (Router.onError (router wk))"
    and W: "calls w = 0" "observed w = []"
    and K: "1 \<le> K" "int K \<le> R + 1" "outcome K = None"
      "\<forall>j. 1 \<le> j \<and> j < K \<longrightarrow> outcome j \<noteq> None"
  shows "fst (retry_loop wp wk (R + 1) 0 w) = Inr ()
      \<and> calls (snd (retry_loop wp wk (R + 1) 0 w)) = K
      \<and> observed (snd (retry_loop wp wk (R + 1) 0 w)) = []"
proof -
  have "fst (retry_loop wp wk (R + 1) 0 w) = Inr ()
         \<and> calls (snd (retry_loop wp wk (R + 1) 0 w)) = K
         \<and> observed (snd (retry_loop wp wk (R + 1) 0 w)) = observed w"
  proof (rule retry_loop_success [OF H Q K(3)])
    show "int K \<le> R + 1" by (rule K(2))
    show "int K \<le> WorkerPool.maxRetries wp + 1" using K(2) R by simp
    show "(0::int) \<le> 0" by simp
    show "calls w = nat 0" using W by simp
    show "nat 0 < K" using K(1) by simp
    show "\<forall>j. nat 0 < j \<and> j < K \<longrightarrow> outcome j \<noteq> None" using K(4) by (simp add: Suc_le_eq)
  qed
  then show ?thesis using W by simp
qed

lemma retry_from_start_exhausted:
  assumes R: "0 \<le> R" "WorkerPool.maxRetries wp = R"
    and H: "handlers (router wk) (Topic (Metadata (event wk))) = Some (Some (scripted outcome))"
    and Q: "quiet (Router.onError (router wk))"
    and P: "WorkerPool.onError wp = None \<or> WorkerPool.onError wp = Some record_failure"
    and W: "calls w = 0" "observed w = []"
    and F: "\<forall>j. 1 \<le> j \<and> int j \<le> R + 1 \<longrightarrow> outcome j \<noteq> None"
  shows "fst (retry_loop wp wk (R + 1) 0 w) = Inr ()
      \<and> calls (snd (retry_loop wp wk (R + 1) 0 w)) = nat (R + 1)
      \<and> observed (snd (retry_loop wp wk (R + 1) 0 w))
          = (case WorkerPool.onError wp of
               None \<Rightarrow> []
             | Some obs \<Rightarrow> [(event wk, the (outcome (nat (R + 1))))])"
proof -
  have "fst (retry_loop wp wk (R + 1) 0 w) = Inr ()
         \<and> calls (snd (retry_loop wp wk (R + 1) 0 w)) = nat (R + 1)
         \<and> observed (snd (retry_loop wp wk (R + 1) 0 w))
             = observed w @ (case WorkerPool.onError wp of
                               None \<Rightarrow> []
                             | Some obs \<Rightarrow> [(event wk, the (outcome (nat (R + 1))))])"
  proof (rule retry_loop_exhausted [OF H Q P])
    show "R + 1 = WorkerPool.maxRetries wp + 1" using R by simp
    show "(0::int) \<le> 0" by simp
    show "calls w = nat 0" using W by simp
    show "0 < R + 1" using R by simp
    show "\<forall>j. nat 0 < j \<and> int j \<le> R + 1 \<longrightarrow> outcome j \<noteq> None"
      using F by (simp add: Suc_le_eq)
  qed
  then show ?thesis using W by simp
qed

lemma first_success:
  fixes outcome :: "nat \<Rightarrow> error option"
  shows "1 \<le> j \<Longrightarrow> outcome j = None \<Longrightarrow>
         \<exists>k. 1 \<le> k \<and> k \<le> j \<and> outcome k = None
              \<and> (\<forall>i. 1 \<le> i \<and> i < k \<longrightarrow> outcome i \<noteq> None)"
proof (induction j rule: less_induct)
  case (less j)
  show ?case
  proof (cases "\<forall>i. 1 \<le> i \<and> i < j \<longrightarrow> outcome i \<noteq> None")
    case True
    have "1 \<le> j \<and> j \<le> j \<and> outcome j = None
            \<and> (\<forall>i. 1 \<le> i \<and> i < j \<longrightarrow> outcome i \<noteq> None)"
      using less.prems True by simp
    then show ?thesis by (rule exI)
  next
    case False
    then obtain i where i: "1 \<le> i" "i < j" "outcome i = None" by auto
    from less.IH [OF i(2) i(1) i(3)] obtain k where
      k: "1 \<le> k" "k \<le> i" "outcome k = None"
         "\<forall>m. 1 \<le> m \<and> m < k \<longrightarrow> outcome m \<noteq> None" by auto
    have "k \<le> j" using k(2) i(2) by simp
    then have "1 \<le> k \<and> k \<le> j \<and> outcome k = None
            \<and> (\<forall>m. 1 \<le> m \<and> m < k \<longrightarrow> outcome m \<noteq> None)"
      using k by simp
    then show ?thesis by (rule exI)
  qed
qed

text \<open>
  A pool with \<open>R\<close> retries, \<open>0 \<le> R\<close> and \<open>R + 1\<close> still an \<^verbatim>\<open>int\<close>, processes one
  work item whose topic has the scripted handler registered; the pool has no observer, or
  the observer that records what it receives. \<open>processWithRetry\<close> returns. If the
  handler first succeeds at its \<open>K\<close>-th run with \<open>K \<le> R + 1\<close>, the handler has run
  exactly \<open>K\<close> times and no failure has reached the observer. If the handler fails on
  each of its first \<open>R + 1\<close> runs, the handler has run exactly \<open>R + 1\<close> times and the
  observer, when there is one, has received exactly one pair: the event with the error
  of the last run.
\<close>

theorem processWithRetry_invocations:
  assumes R: "0 \<le> R" "R < 2 ^ 63 - 1" "WorkerPool.maxRetries wp = R"
    and H: "handlers (router wk) (Topic (Metadata (event wk))) = Some (Some (scripted outcome))"
    and Q: "quiet (Router.onError (router wk))"
    and P: "WorkerPool.onError wp = None \<or> WorkerPool.onError wp = Some record_failure"
    and W: "calls w = 0" "observed w = []"
  shows "fst (processWithRetry wp wk w) = Inr ()
       \<and> (1 \<le> K \<and> int K \<le> R + 1 \<and> outcome K = None
            \<and> (\<forall>j. 1 \<le> j \<and> j < K \<longrightarrow> outcome j \<noteq> None) \<longrightarrow>
          calls (snd (processWithRetry wp wk w)) = K
          \<and> observed (snd (processWithRetry wp wk w)) = [])
       \<and> ((\<forall>j. 1 \<le> j \<and> int j \<le> R + 1 \<longrightarrow> outcome j \<noteq> None) \<longrightarrow>
          calls (snd (processWithRetry wp wk w)) = nat (R + 1)
          \<and> observed (snd (processWithRetry wp wk w))
              = (case WorkerPool.onError wp of
                   None \<Rightarrow> []
                 | Some obs \<Rightarrow> [(event wk, the (outcome (nat (R + 1))))]))"
proof -
  have unfold: "processWithRetry wp wk w = retry_loop wp wk (R + 1) 0 w"
    unfolding processWithRetry_def using retry_bound [OF R] by simp
  note success = retry_from_start_success [OF R(1) R(3) H Q W]
  note exhausted = retry_from_start_exhausted [OF R(1) R(3) H Q P W]
  have ret: "fst (retry_loop wp wk (R + 1) 0 w) = Inr ()"
  proof (cases "\<forall>j. 1 \<le> j \<and> int j \<le> R + 1 \<longrightarrow> outcome j \<noteq> None")
    case True
    then show ?thesis using exhausted by blast
  next
    case False
    then obtain j where j: "1 \<le> j" "int j \<le> R + 1" "outcome j = None" by auto
    from first_success [of j outcome, OF j(1) j(3)] obtain k where
      k: "1 \<le> k" "k \<le> j" "outcome k = None" "\<forall>i. 1 \<le> i \<and> i < k \<longrightarrow> outcome i \<noteq> None"
      by blast
    have "int k \<le> R + 1" using k(2) j(2) by linarith
    from success [OF k(1) this k(3) k(4)] show ?thesis by blast
  qed
  show ?thesis
  proof (intro conjI impI)
    show "fst (processWithRetry wp wk w) = Inr ()" using ret unfold by simp
  next
    assume a: "1 \<le> K \<and> int K \<le> R + 1 \<and> outcome K = None
            \<and> (\<forall>j. 1 \<le> j \<and> j < K \<longrightarrow> outcome j \<noteq> None)"
    then have s: "calls (snd (retry_loop wp wk (R + 1) 0 w)) = K
        \<and> observed (snd (retry_loop wp wk (R + 1) 0 w)) = []"
      using success [of K] by blast
    show "calls (snd (processWithRetry wp wk w)) = K" using s unfold by simp
    show "observed (snd (processWithRetry wp wk w)) = []" using s unfold by simp
  next
    assume a: "\<forall>j. 1 \<le> j \<and> int j \<le> R + 1 \<longrightarrow> outcome j \<noteq> None"
    from exhausted [OF a]
    show "calls (snd (processWithRetry wp wk w)) = nat (R + 1)"
      and "observed (snd (processWithRetry wp wk w))
            = (case WorkerPool.onError wp of
                 None \<Rightarrow> []
               | Some obs \<Rightarrow> [(event wk, the (outcome (nat (R + 1))))])"
      using unfold by simp_all
  qed
qed

theorem processWithRetry_invocations_witness:
  "calls (snd (processWithRetry demo_pool (retry_work (fails_before 3)) probe0)) = 3
   \<and> observed (snd (processWithRetry demo_pool (retry_work (fails_before 3)) probe0)) = []
   \<and> calls (snd (processWithRetry demo_pool (retry_work always_fails) probe0)) = 3
   \<and> observed (snd (processWithRetry demo_pool (retry_work always_fails) probe0))
       = [(mk_event ''orders/create'' ''e1'', AppError ''boom'')]
   \<and> calls (snd (processWithRetry (demo_pool\<lparr>WorkerPool.onError := None\<rparr>)
               (retry_work always_fails) probe0)) = 3
   \<and> observed (snd (processWithRetry (demo_pool\<lparr>WorkerPool.onError := None\<rparr>)
               (retry_work always_fails) probe0)) = []"
proof -
  let ?quiet_pool = "demo_pool\<lparr>WorkerPool.onError := None\<rparr>"
  have R: "(0::int) \<le> 2" "(2::int) < 2 ^ 63 - 1" "WorkerPool.maxRetries demo_pool = 2"
    by (simp_all add: demo_pool_def)
  have R': "WorkerPool.maxRetries ?quiet_pool = 2"
    by (simp add: demo_pool_def)
  have H: "handlers (router (retry_work oc)) (Topic (Metadata (event (retry_work oc))))
            = Some (Some (scripted oc))" for oc
    by (simp add: retry_work_def retry_router_fields mk_event_def mk_meta_def)
  have Q: "quiet (Router.onError (router (retry_work oc)))" for oc
    by (simp add: retry_work_def retry_router_fields quiet_log_observer)
  have ob: "WorkerPool.onError demo_pool = Some record_failure"
    by (simp add: demo_pool_def)
  then have P: "WorkerPool.onError demo_pool = None
      \<or> WorkerPool.onError demo_pool = Some record_failure" by simp
  have ob': "WorkerPool.onError ?quiet_pool = None" by simp
  then have P': "WorkerPool.onError ?quiet_pool = None
      \<or> WorkerPool.onError ?quiet_pool = Some record_failure" by simp
  have W: "calls probe0 = 0" "observed probe0 = []"
    by (simp_all add: probe0_def)
  have s: "1 \<le> (3::nat) \<and> int 3 \<le> 2 + 1 \<and> fails_before 3 3 = None
            \<and> (\<forall>j. 1 \<le> j \<and> j < 3 \<longrightarrow> fails_before 3 j \<noteq> None)"
    by (simp add: fails_before_def)
  have f: "\<forall>j. 1 \<le> j \<and> int j \<le> 2 + 1 \<longrightarrow> always_fails j \<noteq> None"
    by (simp add: always_fails_def)
  have e: "event (retry_work always_fails) = mk_event ''orders/create'' ''e1''"
    by (simp add: retry_work_def)
  from processWithRetry_invocations [OF R H Q P W, of "fails_before 3" 3] s
  have a: "calls (snd (processWithRetry demo_pool (retry_work (fails_before 3)) probe0)) = 3
     \<and> observed (snd (processWithRetry demo_pool (retry_work (fails_before 3)) probe0)) = []"
    by blast
  from processWithRetry_invocations [OF R H Q P W, of always_fails 0] f
  have b: "calls (snd (processWithRetry demo_pool (retry_work always_fails) probe0)) = nat (2 + 1)
     \<and> observed (snd (processWithRetry demo_pool (retry_work always_fails) probe0))
         = (case WorkerPool.onError demo_pool of
              None \<Rightarrow> []
            | Some obs \<Rightarrow> [(event (retry_work always_fails), the (always_fails (nat (2 + 1))))])"
    by blast
  from processWithRetry_invocations [OF R(1,2) R' H Q P' W, of always_fails 0] f
  have c: "calls (snd (processWithRetry ?quiet_pool (retry_work always_fails) probe0))
        = nat (2 + 1)
     \<and> observed (snd (processWithRetry ?quiet_pool (retry_work always_fails) probe0))
         = (case WorkerPool.onError ?quiet_pool of
              None \<Rightarrow> []
            | Some obs \<Rightarrow> [(event (retry_work always_fails), the (always_fails (nat (2 + 1))))])"
    by blast
  have b': "calls (snd (processWithRetry demo_pool (retry_work always_fails) probe0)) = 3
     \<and> observed (snd (processWithRetry demo_pool (retry_work always_fails) probe0))
         = [(mk_event ''orders/create'' ''e1'', AppError ''boom'')]"
    using b unfolding ob e by (simp add: always_fails_def)
  have c': "calls (snd (processWithRetry ?quiet_pool (retry_work always_fails) probe0)) = 3
     \<and> observed (snd (processWithRetry ?quiet_pool (retry_work always_fails) probe0)) = []"
    using c unfolding ob' by simp
  show ?thesis using a b' c' by simp
qed

text \<open>
  Claim C2, at the defect. With the greatest \<^verbatim>\<open>int\<close> as the number of retries,
  \<^verbatim>\<open>wp.maxRetries + 1\<close> wraps around to the least \<^verbatim>\<open>int\<close>, the range of the loop is
  empty and \<open>processWithRetry\<close> returns at once with the world untouched: the handler
  is not invoked, not even once, and the observer is not called, whatever the handler
  would have returned. The claim asks for \<open>min(K, R + 1)\<close> runs, at least one.
\<close>

theorem processWithRetry_range_overflow:
  assumes "WorkerPool.maxRetries wp = 2 ^ 63 - 1"
  shows "processWithRetry wp wk w = (Inr (), w)"
proof -
  have "wrap64 (WorkerPool.maxRetries wp + 1) = - (2 ^ 63)"
    using assms by (simp add: wrap64_def)
  then show ?thesis by (simp add: processWithRetry_def retry_loop_stop)
qed

theorem processWithRetry_range_overflow_witness:
  "processWithRetry (demo_pool\<lparr>WorkerPool.maxRetries := 2 ^ 63 - 1\<rparr>)
     (retry_work (fails_before 1)) probe0 = (Inr (), probe0)
   \<and> calls probe0 = 0
   \<and> processWithRetry (demo_pool\<lparr>WorkerPool.maxRetries := 2 ^ 63 - 1\<rparr>)
       (retry_work always_fails) probe0 = (Inr (), probe0)
   \<and> observed probe0 = []"
proof -
  have m: "WorkerPool.maxRetries (demo_pool\<lparr>WorkerPool.maxRetries := 2 ^ 63 - 1\<rparr>)
      = 2 ^ 63 - 1" by simp
  from processWithRetry_range_overflow [OF m, of "retry_work (fails_before 1)" probe0]
    processWithRetry_range_overflow [OF m, of "retry_work always_fails" probe0]
  show ?thesis by (simp add: probe0_def)
qed

text \<open>
  A negative number of retries empties the range as well.
\<close>

lemma processWithRetry_negative_retries:
  assumes "- (2 ^ 63) \<le> WorkerPool.maxRetries wp" "WorkerPool.maxRetries wp < 0"
  shows "processWithRetry wp wk w = (Inr (), w)"
proof -
  have "wrap64 (WorkerPool.maxRetries wp + 1) = WorkerPool.maxRetries wp + 1"
    using assms by (intro wrap64_id) simp_all
  then show ?thesis using assms by (simp add: processWithRetry_def retry_loop_stop)
qed

subsection \<open>Backoff\<close>




subsection \<open>Submitting\<close>

text \<open>
  Claim C5. On a pool whose queue is open and full, \<open>Submit\<close> returns without
  panicking, the pool (its queue in particular) is what it was, so the event is not
  queued anywhere, and the world is the incoming one with the observer, when there is
  one, applied once to the event and \<open>ErrQueueFull\<close>.
\<close>

theorem Submit_queue_full_drops:
  assumes "\<not> closed (queue wp)" and "queue_full (queue wp)"
  shows "WorkerPool_Submit ev rt wp w
           = (Inr (), wp,
              (case WorkerPool.onError wp of
                 Some obs \<Rightarrow> obs ev ErrQueueFull w
               | None \<Rightarrow> w))"
  using assms by (simp add: WorkerPool_Submit_def select_send_def queue_full_def)

theorem Submit_queue_full_drops_witness:
  "WorkerPool_Submit (mk_event ''orders/create'' ''e2'') demo_router full_pool probe0
     = (Inr (), full_pool,
        probe0\<lparr>observed := [(mk_event ''orders/create'' ''e2'', ErrQueueFull)]\<rparr>)"
proof -
  have "\<not> closed (queue full_pool)" and "queue_full (queue full_pool)"
    by (simp_all add: full_pool_def demo_pool_def queue_full_def)
  from Submit_queue_full_drops [OF this, of "mk_event ''orders/create'' ''e2''" demo_router probe0]
  show ?thesis by (simp add: full_pool_def demo_pool_def record_failure_def probe0_def)
qed

text \<open>
  Claim C8, at the defect. After a \<open>Shutdown\<close> that returned, the flag \<open>closing\<close>
  is set and the queue is closed; \<open>Submit\<close> does not read the flag, and its send on
  the closed queue panics. Nothing is queued, but the call does not complete and the
  observer is not told of a dropped event.
\<close>

theorem Submit_after_Shutdown_panics:
  assumes "WorkerPool_Shutdown ctx_err wp = (Inr res, wp')"
  shows "closing wp' \<and> closed (queue wp')
       \<and> WorkerPool_Submit ev rt wp' w = (Inl PanicSendOnClosedChannel, wp', w)"
  using assms
  by (auto simp add: WorkerPool_Shutdown_def WorkerPool_Submit_def select_send_def Let_def
      split: if_splits)

theorem Submit_after_Shutdown_panics_witness:
  "WorkerPool_Shutdown None demo_pool
     = (Inr None, demo_pool\<lparr>queue := (queue demo_pool)\<lparr>closed := True\<rparr>, closing := True\<rparr>)
   \<and> WorkerPool_Submit (mk_event ''orders/create'' ''e2'') demo_router
        (demo_pool\<lparr>queue := (queue demo_pool)\<lparr>closed := True\<rparr>, closing := True\<rparr>) probe0
     = (Inl PanicSendOnClosedChannel,
        demo_pool\<lparr>queue := (queue demo_pool)\<lparr>closed := True\<rparr>, closing := True\<rparr>, probe0)"
proof -
  have s: "WorkerPool_Shutdown None demo_pool
     = (Inr None, demo_pool\<lparr>queue := (queue demo_pool)\<lparr>closed := True\<rparr>, closing := True\<rparr>)"
    by (simp add: WorkerPool_Shutdown_def demo_pool_def)
  from Submit_after_Shutdown_panics [OF s] s show ?thesis by simp
qed

section \<open>Properties of the deduplication store\<close>

lemma run_history_snoc: "run_history s (ops @ [x]) = apply_op (run_history s ops) x"
  by (simp add: run_history_def)

lemma run_history_ttl: "ttl (run_history s ops) = ttl s"
proof (induction ops rule: rev_induct)
  case Nil
  then show ?case by (simp add: run_history_def)
next
  case (snoc x ops)
  obtain t o' where x: "x = (t, o')" by (cases x)
  show ?case using snoc
    by (cases o') (simp_all add: x run_history_snoc MemoryStore_Store_def cleanup_tick_def)
qed

lemma sorted_snoc_le:
  assumes "sorted (map fst (ops @ [(u, a)]))" and "(t, b) \<in> set ops"
  shows "t \<le> (u :: int)"
  using assms by (force simp add: sorted_append)

text \<open>
  What the map of a store says after a chronological history that started from the empty
  store: an entry is the latest recording of its id; an id without an entry was never
  recorded, or a sweep ran when each of its recordings was already older than the time
  to live.
\<close>

lemma run_history_entries:
  assumes "sorted (map fst ops)"
  shows "case entries (run_history (NewMemoryStore d) ops) eventID of
           Some ts \<Rightarrow> (ts, OpStore eventID) \<in> set ops
                      \<and> (\<forall>t. (t, OpStore eventID) \<in> set ops \<longrightarrow> t \<le> ts)
         | None \<Rightarrow> \<forall>t. (t, OpStore eventID) \<in> set ops \<longrightarrow>
                      (\<exists>u a. (u, a) \<in> set ops \<and> d < u - t)"
  using assms
proof (induction ops rule: rev_induct)
  case Nil
  then show ?case by (simp add: run_history_def NewMemoryStore_def)
next
  case (snoc x ops)
  let ?s = "run_history (NewMemoryStore d) ops"
  have srt: "sorted (map fst ops)" using snoc.prems by (simp add: sorted_append)
  note IH = snoc.IH [OF srt]
  have ttl: "ttl ?s = d" by (simp add: run_history_ttl NewMemoryStore_def)
  obtain u a where x: "x = (u, a)" by (cases x)
  have le: "t \<le> u" if "(t, b) \<in> set ops" for t b
    using sorted_snoc_le [of ops u a t b] snoc.prems that by (simp add: x)
  show ?case
  proof (cases a)
    case (OpStore i)
    show ?thesis
    proof (cases "i = eventID")
      case True
      then show ?thesis using le
        by (auto simp add: x OpStore run_history_snoc MemoryStore_Store_def)
    next
      case False
      then show ?thesis using IH
        by (cases "entries ?s eventID")
           (auto simp add: x OpStore run_history_snoc MemoryStore_Store_def)
    qed
  next
    case OpSweep
    show ?thesis
    proof (cases "entries ?s eventID")
      case None
      then show ?thesis using IH
        by (auto simp add: x OpSweep run_history_snoc cleanup_tick_def)
    next
      case (Some ts)
      with IH have in_ops: "(ts, OpStore eventID) \<in> set ops"
        and latest: "\<forall>t. (t, OpStore eventID) \<in> set ops \<longrightarrow> t \<le> ts" by simp_all
      show ?thesis
      proof (cases "u - ts > d")
        case True
        have "\<exists>u' a'. (u', a') \<in> set (ops @ [x]) \<and> d < u' - t"
          if "(t, OpStore eventID) \<in> set ops" for t
        proof -
          have "t \<le> ts" using latest that by simp
          then have "d < u - t" using True by linarith
          then show ?thesis by (auto simp add: x)
        qed
        then show ?thesis using True Some
          by (simp add: x OpSweep run_history_snoc cleanup_tick_def ttl)
      next
        case False
        then show ?thesis using Some in_ops latest
          by (simp add: x OpSweep run_history_snoc cleanup_tick_def ttl)
      qed
    qed
  qed
qed

lemma MemoryStore_Exists_after_Store:
  assumes "t - now \<le> ttl s"
  shows "MemoryStore_Exists (snd (MemoryStore_Store s now i)) t i = (True, None)"
  using assms by (simp add: MemoryStore_Exists_def MemoryStore_Store_def)

text \<open>
  Claim C4, as the code has it. Take a store made with time to live \<open>d\<close> and any
  history of recordings and sweeps, in the order of their clock readings, none later than
  \<open>now\<close>. Then \<open>Exists\<close> at \<open>now\<close> returns no error, and returns true exactly when
  some recording of the id is at most \<open>d\<close> old (\<open>now - t \<le> d\<close>, the bound included),
  whatever the sweeps removed. Recording an id and asking at the same clock reading
  returns true exactly when the time to live is not negative.
\<close>

theorem MemoryStore_Exists_within_ttl:
  assumes "sorted (map fst ops)" and "\<forall>x \<in> set ops. fst x \<le> now"
  shows "MemoryStore_Exists (run_history (NewMemoryStore d) ops) now eventID
           = ((\<exists>t. (t, OpStore eventID) \<in> set ops \<and> now - t \<le> d), None)
       \<and> fst (MemoryStore_Exists (snd (MemoryStore_Store s now eventID)) now eventID)
           = (0 \<le> ttl s)"
proof
  let ?s = "run_history (NewMemoryStore d) ops"
  have ttl: "ttl ?s = d" by (simp add: run_history_ttl NewMemoryStore_def)
  note E = run_history_entries [OF assms(1), where d = d and eventID = eventID]
  show "MemoryStore_Exists ?s now eventID
           = ((\<exists>t. (t, OpStore eventID) \<in> set ops \<and> now - t \<le> d), None)"
  proof (cases "entries ?s eventID")
    case None
    have "\<not> (\<exists>t. (t, OpStore eventID) \<in> set ops \<and> now - t \<le> d)"
    proof
      assume "\<exists>t. (t, OpStore eventID) \<in> set ops \<and> now - t \<le> d"
      then obtain t where t: "(t, OpStore eventID) \<in> set ops" "now - t \<le> d" by blast
      with E None obtain u a where u: "(u, a) \<in> set ops" "d < u - t" by auto
      have "u \<le> now" using assms(2) u(1) by force
      then show False using t(2) u(2) by linarith
    qed
    then show ?thesis using None by (simp add: MemoryStore_Exists_def)
  next
    case (Some ts)
    with E have in_ops: "(ts, OpStore eventID) \<in> set ops"
      and latest: "\<forall>t. (t, OpStore eventID) \<in> set ops \<longrightarrow> t \<le> ts" by simp_all
    have "(\<exists>t. (t, OpStore eventID) \<in> set ops \<and> now - t \<le> d) = (now - ts \<le> d)"
    proof
      assume "\<exists>t. (t, OpStore eventID) \<in> set ops \<and> now - t \<le> d"
      then obtain t where t: "(t, OpStore eventID) \<in> set ops" "now - t \<le> d" by blast
      then have "t \<le> ts" using latest by simp
      then show "now - ts \<le> d" using t(2) by linarith
    next
      assume "now - ts \<le> d"
      then show "\<exists>t. (t, OpStore eventID) \<in> set ops \<and> now - t \<le> d"
        using in_ops by blast
    qed
    then show ?thesis using Some ttl by (auto simp add: MemoryStore_Exists_def)
  qed
next
  show "fst (MemoryStore_Exists (snd (MemoryStore_Store s now eventID)) now eventID)
           = (0 \<le> ttl s)"
    by (simp add: MemoryStore_Exists_def MemoryStore_Store_def)
qed

theorem MemoryStore_Exists_within_ttl_witness:
  "MemoryStore_Exists
     (run_history (NewMemoryStore 5) [(0, OpStore ''event-1''), (3, OpSweep), (4, OpStore ''event-2'')])
     5 ''event-1'' = (True, None)
   \<and> MemoryStore_Exists
     (run_history (NewMemoryStore 5) [(0, OpStore ''event-1''), (3, OpSweep), (4, OpStore ''event-2'')])
     6 ''event-1'' = (False, None)
   \<and> fst (MemoryStore_Exists (snd (MemoryStore_Store (NewMemoryStore 5) 6 ''event-3'')) 6
            ''event-3'')"
proof -
  let ?ops = "[(0::int, OpStore ''event-1''), (3, OpSweep), (4, OpStore ''event-2'')]"
  have s: "sorted (map fst ?ops)" by simp
  have b5: "\<forall>x \<in> set ?ops. fst x \<le> 5" and b6: "\<forall>x \<in> set ?ops. fst x \<le> 6" by simp_all
  have e5: "(\<exists>t. (t, OpStore ''event-1'') \<in> set ?ops \<and> 5 - t \<le> (5::int)) = True" by auto
  have e6: "(\<exists>t. (t, OpStore ''event-1'') \<in> set ?ops \<and> 6 - t \<le> (5::int)) = False" by auto
  from MemoryStore_Exists_within_ttl [OF s b5, where d = 5 and eventID = "''event-1''"
      and s = "NewMemoryStore 5"]
  have one: "MemoryStore_Exists (run_history (NewMemoryStore 5) ?ops) 5 ''event-1''
      = (True, None)"
    unfolding e5 by simp
  from MemoryStore_Exists_within_ttl [OF s b6, where d = 5 and eventID = "''event-1''"
      and s = "NewMemoryStore 5"]
  have two: "MemoryStore_Exists (run_history (NewMemoryStore 5) ?ops) 6 ''event-1''
      = (False, None)"
    unfolding e6 by simp
  from MemoryStore_Exists_within_ttl [OF s b6, where d = 5 and eventID = "''event-3''"
      and s = "NewMemoryStore 5"]
  have three: "fst (MemoryStore_Exists (snd (MemoryStore_Store (NewMemoryStore 5) 6 ''event-3''))
      6 ''event-3'')"
    by (simp add: NewMemoryStore_def)
  from one two three show ?thesis by simp
qed

text \<open>
  The claim as written fails where the age equals the time to live: a recording made at
  instant 0 in a store with time to live 5 is found at instant 5, and was not made less
  than 5 ago.
\<close>

theorem MemoryStore_Exists_at_ttl_counterexample:
  "fst (MemoryStore_Exists (run_history (NewMemoryStore 5) [(0, OpStore ''event-1'')]) 5
         ''event-1'')
   \<and> \<not> ((5::int) - 0 < 5)"
  by (simp add: MemoryStore_Exists_def run_history_def MemoryStore_Store_def NewMemoryStore_def)

section \<open>Properties of the all-in-one handler\<close>

lemma select_send_full:
  "\<not> closed c \<Longrightarrow> queue_full c \<Longrightarrow> select_send c x = WouldBlock"
  by (simp add: select_send_def queue_full_def)

lemma WorkerPool_Submit_full:
  assumes "\<not> closed (queue wp)" and "queue_full (queue wp)"
  shows "WorkerPool_Submit ev rt wp w
           = (Inr (), wp,
              (case WorkerPool.onError wp of
                 Some obs \<Rightarrow> obs ev ErrQueueFull w
               | None \<Rightarrow> w))"
  using assms by (simp add: WorkerPool_Submit_def select_send_full)

lemma MemoryStore_iface_simps:
  "Exists MemoryStore_iface w i s = (MemoryStore_Exists s (clock w) i, s)"
  "Store MemoryStore_iface w i s = MemoryStore_Store s (clock w) i"
  by (simp_all add: MemoryStore_iface_def)

lemma Handler_process_sync:
  assumes "async cfg = None" and "Dispatch rt ev (world st) = (Inr res, w')"
  shows "Handler_process rt cfg ev st
           = (Inr (),
              (case dedup cfg of
                 Some store \<Rightarrow>
                   st\<lparr>dedup_state := snd (Store store w' (EventID (Metadata ev)) (dedup_state st)),
                      world := w', response := WriteHeader 200 (response st)\<rparr>
               | None \<Rightarrow> st\<lparr>world := w', response := WriteHeader 200 (response st)\<rparr>))"
  using assms by (cases "dedup cfg") (simp_all add: Handler_process_def)

lemma Handler_process_async:
  assumes "async cfg = Some a"
    and "Submit a ev rt (async_state st) (world st) = (Inr u, p', w')"
  shows "Handler_process rt cfg ev st
           = (Inr (),
              (case dedup cfg of
                 Some store \<Rightarrow>
                   st\<lparr>dedup_state := snd (Store store w' (EventID (Metadata ev)) (dedup_state st)),
                      async_state := p', world := w',
                      response := WriteHeader 200 (response st)\<rparr>
               | None \<Rightarrow> st\<lparr>async_state := p', world := w',
                          response := WriteHeader 200 (response st)\<rparr>))"
  using assms by (cases "dedup cfg") (simp_all add: Handler_process_def)

text \<open>
  When the second half of the handler returns, the state of the store is the one before
  it with the event's id stored, at the world the hand-over left.
\<close>

lemma Handler_process_marks:
  assumes "Handler_process rt cfg ev st = (Inr (), st')" and "dedup cfg = Some store"
  shows "dedup_state st'
           = snd (Store store (world st') (EventID (Metadata ev)) (dedup_state st))"
proof (cases "async cfg")
  case None
  obtain r w' where D: "Dispatch rt ev (world st) = (r, w')" by (cases "Dispatch rt ev (world st)")
  show ?thesis
  proof (cases r)
    case (Inl p)
    then show ?thesis using assms None D by (simp add: Handler_process_def)
  next
    case (Inr res)
    then show ?thesis using assms Handler_process_sync [OF None, of rt ev st res w'] D
      by auto
  qed
next
  case (Some a)
  obtain r p' w' where S: "Submit a ev rt (async_state st) (world st) = (r, p', w')"
    by (cases "Submit a ev rt (async_state st) (world st)")
  show ?thesis
  proof (cases r)
    case (Inl p)
    then show ?thesis using assms Some S by (simp add: Handler_process_def)
  next
    case (Inr u)
    then show ?thesis using assms Handler_process_async [OF Some, of ev rt st u p' w'] S
      by auto
  qed
qed

lemma Handler_dedup_check:
  assumes "dedup cfg = Some store"
    and "Exists store (world st) (EventID meta) (dedup_state st) = ((processed, checkErr), d')"
  shows "Handler rt cfg (Inr raw) (Inr meta) st
           = (if processed \<and> checkErr = None
              then (Inr (), st\<lparr>dedup_state := d', response := WriteHeader 200 (response st)\<rparr>)
              else Handler_process rt cfg \<lparr>Metadata = meta, RawBody = raw\<rparr>
                     (st\<lparr>dedup_state := d'\<rparr>))"
  using assms by (cases checkErr) (simp_all add: Handler_def)

lemma Handler_first_delivery:
  assumes "dedup cfg = Some MemoryStore_iface"
    and "MemoryStore_Exists (dedup_state st) (clock (world st)) (EventID meta) = (False, None)"
  shows "Handler rt cfg (Inr raw) (Inr meta) st
           = Handler_process rt cfg \<lparr>Metadata = meta, RawBody = raw\<rparr> st"
  using Handler_dedup_check [OF assms(1), of st meta False None "dedup_state st" rt raw] assms(2)
  by (simp add: MemoryStore_iface_simps)

lemma Handler_second_delivery:
  assumes "dedup cfg = Some MemoryStore_iface"
    and "Handler_process rt cfg \<lparr>Metadata = meta, RawBody = raw\<rparr> st0 = (Inr (), st1)"
    and "clock w2 - clock (world st1) \<le> ttl (dedup_state st0)"
  shows "Handler rt cfg (Inr raw) (Inr meta) (st1\<lparr>world := w2, response := rw2\<rparr>)
           = (Inr (), st1\<lparr>world := w2, response := WriteHeader 200 rw2\<rparr>)"
proof -
  have m: "dedup_state st1
      = snd (MemoryStore_Store (dedup_state st0) (clock (world st1)) (EventID meta))"
    using Handler_process_marks [OF assms(2) assms(1)] by (simp add: MemoryStore_iface_simps)
  have e: "MemoryStore_Exists (dedup_state st1) (clock w2) (EventID meta) = (True, None)"
    unfolding m using assms(3) by (rule MemoryStore_Exists_after_Store)
  have "Exists MemoryStore_iface (world (st1\<lparr>world := w2, response := rw2\<rparr>)) (EventID meta)
          (dedup_state (st1\<lparr>world := w2, response := rw2\<rparr>))
        = ((True, None), dedup_state st1)"
    by (simp add: MemoryStore_iface_simps e)
  from Handler_dedup_check [OF assms(1) this, of rt raw] show ?thesis by simp
qed

lemma sync_cfg_fields:
  "dedup sync_cfg = Some MemoryStore_iface" "async sync_cfg = None"
  by (simp_all add: sync_cfg_def WithIdempotencyStore_def default_handlerConfig_def)

lemma async_cfg_fields:
  "dedup async_cfg = Some MemoryStore_iface" "async async_cfg = Some WorkerPool_iface"
  by (simp_all add: async_cfg_def WithIdempotencyStore_def WithAsyncProcessor_def
      default_handlerConfig_def)

lemma Dispatch_demo_ok:
  "Dispatch demo_router \<lparr>Metadata = mk_meta ''orders/create'' i, RawBody = b\<rparr> w
     = (Inr None, w\<lparr>trail := trail w @ [''H'']\<rparr>)"
  by (simp add: Dispatch_def demo_router_fields mk_meta_def log_ok_def)

lemma Dispatch_demo_fail:
  "Dispatch demo_router \<lparr>Metadata = mk_meta ''products/update'' i, RawBody = b\<rparr> w
     = (Inr (Some (AppError ''processing failed'')),
        w\<lparr>trail := trail w @ [''G'', ''observer'']\<rparr>)"
  by (simp add: Dispatch_def demo_router_fields mk_meta_def log_fail_def log_observer_def)

lemma Handler_sync_first:
  "Handler demo_router sync_cfg (Inr ''{}'') (Inr (mk_meta ''orders/create'' ''event-123''))
     sync_start
   = (Inr (),
      sync_start
        \<lparr>dedup_state :=
           snd (MemoryStore_Store (dedup_state sync_start) 0 ''event-123''),
         world := probe0\<lparr>trail := [''H'']\<rparr>,
         response := WriteHeader 200 fresh_response\<rparr>)"
proof -
  have e: "MemoryStore_Exists (dedup_state sync_start) (clock (world sync_start))
             (EventID (mk_meta ''orders/create'' ''event-123'')) = (False, None)"
    by (simp add: sync_start_def NewMemoryStore_def MemoryStore_Exists_def)
  have d: "Dispatch demo_router
             \<lparr>Metadata = mk_meta ''orders/create'' ''event-123'', RawBody = ''{}''\<rparr>
             (world sync_start)
           = (Inr None, probe0\<lparr>trail := [''H'']\<rparr>)"
    by (simp add: Dispatch_demo_ok) (simp add: sync_start_def probe0_def)
  show ?thesis
    unfolding Handler_first_delivery [OF sync_cfg_fields(1) e]
      Handler_process_sync [OF sync_cfg_fields(2) d]
    by (simp add: sync_cfg_fields MemoryStore_iface_simps)
       (simp add: sync_start_def probe0_def mk_meta_def)
qed

lemma Handler_async_first_queued:
  "Handler demo_router async_cfg (Inr ''{}'') (Inr (mk_meta ''orders/create'' ''event-123''))
     async_ready
   = (Inr (),
      async_ready
        \<lparr>dedup_state :=
           snd (MemoryStore_Store (dedup_state async_ready) 0 ''event-123''),
         async_state :=
           demo_pool
             \<lparr>queue := (queue demo_pool)
                \<lparr>buf := [\<lparr>event = \<lparr>Metadata = mk_meta ''orders/create'' ''event-123'',
                                        RawBody = ''{}''\<rparr>,
                            router = demo_router, attempt = 0\<rparr>]\<rparr>\<rparr>,
         world := probe0,
         response := WriteHeader 200 fresh_response\<rparr>)"
proof -
  let ?ev = "\<lparr>Metadata = mk_meta ''orders/create'' ''event-123'', RawBody = ''{}''\<rparr>"
  have e: "MemoryStore_Exists (dedup_state async_ready) (clock (world async_ready))
             (EventID (mk_meta ''orders/create'' ''event-123'')) = (False, None)"
    by (simp add: async_ready_def NewMemoryStore_def MemoryStore_Exists_def)
  have d: "Submit WorkerPool_iface ?ev demo_router (async_state async_ready) (world async_ready)
      = (Inr (),
         demo_pool\<lparr>queue := (queue demo_pool)
            \<lparr>buf := [\<lparr>event = ?ev, router = demo_router, attempt = 0\<rparr>]\<rparr>\<rparr>,
         probe0)"
    by (simp add: WorkerPool_iface_def WorkerPool_Submit_def select_send_def async_ready_def
        demo_pool_def)
  show ?thesis
    unfolding Handler_first_delivery [OF async_cfg_fields(1) e]
      Handler_process_async [OF async_cfg_fields(2) d]
    by (simp add: async_cfg_fields MemoryStore_iface_simps)
       (simp add: async_ready_def probe0_def mk_meta_def)
qed

lemma Handler_async_first_dropped:
  "Handler demo_router async_cfg (Inr ''{}'') (Inr (mk_meta ''orders/create'' ''event-123''))
     async_start
   = (Inr (),
      async_start
        \<lparr>dedup_state :=
           snd (MemoryStore_Store (dedup_state async_start) 0 ''event-123''),
         world :=
           probe0\<lparr>observed := [(\<lparr>Metadata = mk_meta ''orders/create'' ''event-123'',
                                    RawBody = ''{}''\<rparr>, ErrQueueFull)]\<rparr>,
         response := WriteHeader 200 fresh_response\<rparr>)"
proof -
  let ?ev = "\<lparr>Metadata = mk_meta ''orders/create'' ''event-123'', RawBody = ''{}''\<rparr>"
  have e: "MemoryStore_Exists (dedup_state async_start) (clock (world async_start))
             (EventID (mk_meta ''orders/create'' ''event-123'')) = (False, None)"
    by (simp add: async_start_def NewMemoryStore_def MemoryStore_Exists_def)
  have full: "\<not> closed (queue full_pool)" "queue_full (queue full_pool)"
    by (simp_all add: full_pool_def demo_pool_def queue_full_def)
  have d: "Submit WorkerPool_iface ?ev demo_router (async_state async_start) (world async_start)
      = (Inr (), async_state async_start, probe0\<lparr>observed := [(?ev, ErrQueueFull)]\<rparr>)"
    using WorkerPool_Submit_full [OF full, of ?ev demo_router probe0]
    by (simp add: WorkerPool_iface_def async_start_def)
       (simp add: full_pool_def demo_pool_def record_failure_def probe0_def)
  show ?thesis
    unfolding Handler_first_delivery [OF async_cfg_fields(1) e]
      Handler_process_async [OF async_cfg_fields(2) d]
    by (simp add: async_cfg_fields MemoryStore_iface_simps)
       (simp add: async_start_def probe0_def mk_meta_def)
qed

text \<open>
  Claim C3, as the code has it. With a store configured, the handler answers a verified
  and parsed request as follows. If \<open>Exists\<close> returns true and no error, the handler
  responds 200 and returns: the world and the state of the processor are the incoming
  ones (nothing was dispatched or submitted) and the state of the store is the one
  \<open>Exists\<close> left (\<open>Store\<close> was not called). In every other case, an error of
  \<open>Exists\<close> included, the event is processed. Consequently, with the in-memory store:
  when a first delivery is not a duplicate and returns, it handed the event over exactly
  once, by one \<open>Dispatch\<close> in place (one invocation of the router) when no processor
  is configured and by one \<open>Submit\<close> when one is; and a second delivery of the same
  event id whose clock reading is within the time to live of the first changes nothing
  but the response: the handler hands nothing over again. With a processor the router
  is invoked by the processor, if at all.
\<close>

theorem Handler_skips_known_duplicates:
  "(dedup cfg = Some store
      \<and> Exists store (world st) (EventID meta) (dedup_state st) = ((processed, checkErr), d')
    \<longrightarrow>
    Handler rt cfg (Inr raw) (Inr meta) st
      = (if processed \<and> checkErr = None
         then (Inr (), st\<lparr>dedup_state := d', response := WriteHeader 200 (response st)\<rparr>)
         else Handler_process rt cfg \<lparr>Metadata = meta, RawBody = raw\<rparr>
                (st\<lparr>dedup_state := d'\<rparr>)))
   \<and> (dedup cfgm = Some MemoryStore_iface
      \<and> MemoryStore_Exists (dedup_state st0) (clock (world st0)) (EventID meta) = (False, None)
      \<and> Handler rtm cfgm (Inr raw) (Inr meta) st0 = (Inr (), st1)
      \<and> clock w2 - clock (world st1) \<le> ttl (dedup_state st0)
    \<longrightarrow>
    Handler rtm cfgm (Inr raw) (Inr meta) st0
      = Handler_process rtm cfgm \<lparr>Metadata = meta, RawBody = raw\<rparr> st0
    \<and> (async cfgm = None \<longrightarrow>
         world st1 = snd (Dispatch rtm \<lparr>Metadata = meta, RawBody = raw\<rparr> (world st0)))
    \<and> (\<forall>a. async cfgm = Some a \<longrightarrow>
         (async_state st1, world st1)
           = snd (Submit a \<lparr>Metadata = meta, RawBody = raw\<rparr> rtm (async_state st0) (world st0)))
    \<and> Handler rtm cfgm (Inr raw) (Inr meta) (st1\<lparr>world := w2, response := rw2\<rparr>)
        = (Inr (), st1\<lparr>world := w2, response := WriteHeader 200 rw2\<rparr>))"
proof (intro conjI impI allI)
  assume "dedup cfg = Some store
      \<and> Exists store (world st) (EventID meta) (dedup_state st) = ((processed, checkErr), d')"
  then have "dedup cfg = Some store"
    and "Exists store (world st) (EventID meta) (dedup_state st) = ((processed, checkErr), d')"
    by simp_all
  then show "Handler rt cfg (Inr raw) (Inr meta) st
      = (if processed \<and> checkErr = None
         then (Inr (), st\<lparr>dedup_state := d', response := WriteHeader 200 (response st)\<rparr>)
         else Handler_process rt cfg \<lparr>Metadata = meta, RawBody = raw\<rparr>
                (st\<lparr>dedup_state := d'\<rparr>))"
    by (rule Handler_dedup_check)
next
  let ?ev = "\<lparr>Metadata = meta, RawBody = raw\<rparr>"
  assume a: "dedup cfgm = Some MemoryStore_iface
      \<and> MemoryStore_Exists (dedup_state st0) (clock (world st0)) (EventID meta) = (False, None)
      \<and> Handler rtm cfgm (Inr raw) (Inr meta) st0 = (Inr (), st1)
      \<and> clock w2 - clock (world st1) \<le> ttl (dedup_state st0)"
  then have first: "Handler rtm cfgm (Inr raw) (Inr meta) st0 = Handler_process rtm cfgm ?ev st0"
    by (intro Handler_first_delivery) simp_all
  then show "Handler rtm cfgm (Inr raw) (Inr meta) st0 = Handler_process rtm cfgm ?ev st0" .
  have p: "Handler_process rtm cfgm ?ev st0 = (Inr (), st1)" using a first by simp
  show "Handler rtm cfgm (Inr raw) (Inr meta) (st1\<lparr>world := w2, response := rw2\<rparr>)
        = (Inr (), st1\<lparr>world := w2, response := WriteHeader 200 rw2\<rparr>)"
  proof (rule Handler_second_delivery [OF _ p])
    show "dedup cfgm = Some MemoryStore_iface" using a by simp
    show "clock w2 - clock (world st1) \<le> ttl (dedup_state st0)" using a by simp
  qed
  {
    assume n: "async cfgm = None"
    obtain r w' where D: "Dispatch rtm ?ev (world st0) = (r, w')"
      by (cases "Dispatch rtm ?ev (world st0)")
    show "world st1 = snd (Dispatch rtm ?ev (world st0))"
    proof (cases r)
      case (Inl pn)
      then show ?thesis using p n D by (simp add: Handler_process_def)
    next
      case (Inr res)
      then show ?thesis using p a Handler_process_sync [OF n, of rtm ?ev st0 res w'] D by auto
    qed
  }
  {
    fix a' assume s: "async cfgm = Some a'"
    obtain r p' w' where S: "Submit a' ?ev rtm (async_state st0) (world st0) = (r, p', w')"
      by (cases "Submit a' ?ev rtm (async_state st0) (world st0)")
    show "(async_state st1, world st1)
           = snd (Submit a' ?ev rtm (async_state st0) (world st0))"
    proof (cases r)
      case (Inl pn)
      then show ?thesis using p s S by (simp add: Handler_process_def)
    next
      case (Inr u)
      then show ?thesis using p a Handler_process_async [OF s, of ?ev rtm st0 u p' w'] S by auto
    qed
  }
qed

theorem Handler_skips_known_duplicates_witness:
  "Handler demo_router sync_cfg (Inr ''{}'') (Inr (mk_meta ''orders/create'' ''event-123''))
     sync_start
   = (Inr (),
      sync_start
        \<lparr>dedup_state :=
           snd (MemoryStore_Store (dedup_state sync_start) 0 ''event-123''),
         world := probe0\<lparr>trail := [''H'']\<rparr>,
         response := WriteHeader 200 fresh_response\<rparr>)
   \<and> Handler demo_router sync_cfg (Inr ''{}'') (Inr (mk_meta ''orders/create'' ''event-123''))
       (sync_start
          \<lparr>dedup_state :=
             snd (MemoryStore_Store (dedup_state sync_start) 0 ''event-123''),
           world := probe0\<lparr>clock := 10, trail := [''H'']\<rparr>,
           response := fresh_response\<rparr>)
     = (Inr (),
        sync_start
          \<lparr>dedup_state :=
             snd (MemoryStore_Store (dedup_state sync_start) 0 ''event-123''),
           world := probe0\<lparr>clock := 10, trail := [''H'']\<rparr>,
           response := WriteHeader 200 fresh_response\<rparr>)
   \<and> Handler demo_router async_cfg (Inr ''{}'') (Inr (mk_meta ''orders/create'' ''event-123''))
       (async_ready
          \<lparr>dedup_state :=
             snd (MemoryStore_Store (dedup_state async_ready) 0 ''event-123''),
           async_state :=
             demo_pool
               \<lparr>queue := (queue demo_pool)
                  \<lparr>buf := [\<lparr>event = \<lparr>Metadata = mk_meta ''orders/create'' ''event-123'',
                                          RawBody = ''{}''\<rparr>,
                              router = demo_router, attempt = 0\<rparr>]\<rparr>\<rparr>,
           world := probe0\<lparr>clock := 10\<rparr>,
           response := fresh_response\<rparr>)
     = (Inr (),
        async_ready
          \<lparr>dedup_state :=
             snd (MemoryStore_Store (dedup_state async_ready) 0 ''event-123''),
           async_state :=
             demo_pool
               \<lparr>queue := (queue demo_pool)
                  \<lparr>buf := [\<lparr>event = \<lparr>Metadata = mk_meta ''orders/create'' ''event-123'',
                                          RawBody = ''{}''\<rparr>,
                              router = demo_router, attempt = 0\<rparr>]\<rparr>\<rparr>,
           world := probe0\<lparr>clock := 10\<rparr>,
           response := WriteHeader 200 fresh_response\<rparr>)"
proof -
  let ?meta = "mk_meta ''orders/create'' ''event-123''"
  let ?st1 = "sync_start
        \<lparr>dedup_state :=
           snd (MemoryStore_Store (dedup_state sync_start) 0 ''event-123''),
         world := probe0\<lparr>trail := [''H'']\<rparr>,
         response := WriteHeader 200 fresh_response\<rparr>"
  let ?w2 = "probe0\<lparr>clock := 10, trail := [''H'']\<rparr>"
  have pre: "dedup sync_cfg = Some MemoryStore_iface
      \<and> MemoryStore_Exists (dedup_state sync_start) (clock (world sync_start)) (EventID ?meta)
          = (False, None)
      \<and> Handler demo_router sync_cfg (Inr ''{}'') (Inr ?meta) sync_start = (Inr (), ?st1)
      \<and> clock ?w2 - clock (world ?st1) \<le> ttl (dedup_state sync_start)"
    by (simp add: sync_cfg_fields Handler_sync_first)
       (simp add: sync_start_def NewMemoryStore_def MemoryStore_Exists_def probe0_def)
  from Handler_skips_known_duplicates [where cfgm = sync_cfg and rtm = demo_router
      and ?st0.0 = sync_start and ?st1.0 = ?st1 and raw = "''{}''" and meta = ?meta
      and ?w2.0 = ?w2 and ?rw2.0 = fresh_response,
      THEN conjunct2, THEN mp, OF pre, THEN conjunct2, THEN conjunct2, THEN conjunct2]
  have "Handler demo_router sync_cfg (Inr ''{}'') (Inr ?meta)
          (?st1\<lparr>world := ?w2, response := fresh_response\<rparr>)
        = (Inr (), ?st1\<lparr>world := ?w2, response := WriteHeader 200 fresh_response\<rparr>)" .
  then have sync: "Handler demo_router sync_cfg (Inr ''{}'') (Inr ?meta)
          (sync_start
             \<lparr>dedup_state :=
                snd (MemoryStore_Store (dedup_state sync_start) 0 ''event-123''),
              world := ?w2, response := fresh_response\<rparr>)
        = (Inr (),
           sync_start
             \<lparr>dedup_state :=
                snd (MemoryStore_Store (dedup_state sync_start) 0 ''event-123''),
              world := ?w2, response := WriteHeader 200 fresh_response\<rparr>)"
    by simp
  let ?q1 = "demo_pool
       \<lparr>queue := (queue demo_pool)
          \<lparr>buf := [\<lparr>event = \<lparr>Metadata = ?meta, RawBody = ''{}''\<rparr>,
                      router = demo_router, attempt = 0\<rparr>]\<rparr>\<rparr>"
  let ?sa1 = "async_ready
        \<lparr>dedup_state :=
           snd (MemoryStore_Store (dedup_state async_ready) 0 ''event-123''),
         async_state := ?q1, world := probe0,
         response := WriteHeader 200 fresh_response\<rparr>"
  let ?wa2 = "probe0\<lparr>clock := 10\<rparr>"
  have prea: "dedup async_cfg = Some MemoryStore_iface
      \<and> MemoryStore_Exists (dedup_state async_ready) (clock (world async_ready)) (EventID ?meta)
          = (False, None)
      \<and> Handler demo_router async_cfg (Inr ''{}'') (Inr ?meta) async_ready = (Inr (), ?sa1)
      \<and> clock ?wa2 - clock (world ?sa1) \<le> ttl (dedup_state async_ready)"
    by (simp add: async_cfg_fields Handler_async_first_queued)
       (simp add: async_ready_def NewMemoryStore_def MemoryStore_Exists_def probe0_def)
  from Handler_skips_known_duplicates [where cfgm = async_cfg and rtm = demo_router
      and ?st0.0 = async_ready and ?st1.0 = ?sa1 and raw = "''{}''" and meta = ?meta
      and ?w2.0 = ?wa2 and ?rw2.0 = fresh_response,
      THEN conjunct2, THEN mp, OF prea, THEN conjunct2, THEN conjunct2, THEN conjunct2]
  have "Handler demo_router async_cfg (Inr ''{}'') (Inr ?meta)
          (?sa1\<lparr>world := ?wa2, response := fresh_response\<rparr>)
        = (Inr (), ?sa1\<lparr>world := ?wa2, response := WriteHeader 200 fresh_response\<rparr>)" .
  then have async: "Handler demo_router async_cfg (Inr ''{}'') (Inr ?meta)
          (async_ready
             \<lparr>dedup_state :=
                snd (MemoryStore_Store (dedup_state async_ready) 0 ''event-123''),
              async_state := ?q1, world := ?wa2, response := fresh_response\<rparr>)
        = (Inr (),
           async_ready
             \<lparr>dedup_state :=
                snd (MemoryStore_Store (dedup_state async_ready) 0 ''event-123''),
              async_state := ?q1, world := ?wa2,
              response := WriteHeader 200 fresh_response\<rparr>)"
    by simp
  from Handler_sync_first sync async show ?thesis by simp
qed

text \<open>
  The claim as written fails with a processor: one \<open>Submit\<close> is not one invocation of
  the router. With a worker pool whose queue is full, the first delivery is dropped (the
  observer is told \<open>ErrQueueFull\<close>, the pool is as it was and the handler registered
  for the topic, which would write \<open>H\<close> on the trail, has not run) and marked in the
  store all the same; the second delivery is then skipped as a duplicate. The router
  has been invoked zero times for the two deliveries, and nothing is queued for it.
\<close>

theorem Handler_async_drop_counterexample:
  "Handler demo_router async_cfg (Inr ''{}'') (Inr (mk_meta ''orders/create'' ''event-123''))
     async_start
   = (Inr (),
      async_start
        \<lparr>dedup_state :=
           snd (MemoryStore_Store (dedup_state async_start) 0 ''event-123''),
         world :=
           probe0\<lparr>observed := [(\<lparr>Metadata = mk_meta ''orders/create'' ''event-123'',
                                    RawBody = ''{}''\<rparr>, ErrQueueFull)]\<rparr>,
         response := WriteHeader 200 fresh_response\<rparr>)
   \<and> Handler demo_router async_cfg (Inr ''{}'') (Inr (mk_meta ''orders/create'' ''event-123''))
       (async_start
          \<lparr>dedup_state :=
             snd (MemoryStore_Store (dedup_state async_start) 0 ''event-123''),
           world :=
             probe0\<lparr>observed := [(\<lparr>Metadata = mk_meta ''orders/create'' ''event-123'',
                                      RawBody = ''{}''\<rparr>, ErrQueueFull)]\<rparr>,
           response := fresh_response\<rparr>)
     = (Inr (),
        async_start
          \<lparr>dedup_state :=
             snd (MemoryStore_Store (dedup_state async_start) 0 ''event-123''),
           world :=
             probe0\<lparr>observed := [(\<lparr>Metadata = mk_meta ''orders/create'' ''event-123'',
                                      RawBody = ''{}''\<rparr>, ErrQueueFull)]\<rparr>,
           response := WriteHeader 200 fresh_response\<rparr>)
   \<and> trail (probe0\<lparr>observed := [(\<lparr>Metadata = mk_meta ''orders/create'' ''event-123'',
                                       RawBody = ''{}''\<rparr>, ErrQueueFull)]\<rparr>) = []
   \<and> async_state async_start = full_pool
   \<and> handlers demo_router ''orders/create'' = Some (Some (log_ok ''H''))"
proof -
  let ?meta = "mk_meta ''orders/create'' ''event-123''"
  let ?wq = "probe0\<lparr>observed := [(\<lparr>Metadata = ?meta, RawBody = ''{}''\<rparr>, ErrQueueFull)]\<rparr>"
  let ?st1 = "async_start
        \<lparr>dedup_state :=
           snd (MemoryStore_Store (dedup_state async_start) 0 ''event-123''),
         world := ?wq, response := WriteHeader 200 fresh_response\<rparr>"
  have first: "Handler demo_router async_cfg (Inr ''{}'') (Inr ?meta) async_start
      = (Inr (), ?st1)"
    by (rule Handler_async_first_dropped)
  have e: "MemoryStore_Exists (dedup_state async_start) (clock (world async_start))
             (EventID ?meta) = (False, None)"
    by (simp add: async_start_def NewMemoryStore_def MemoryStore_Exists_def)
  have p: "Handler_process demo_router async_cfg \<lparr>Metadata = ?meta, RawBody = ''{}''\<rparr>
             async_start = (Inr (), ?st1)"
    using first unfolding Handler_first_delivery [OF async_cfg_fields(1) e] .
  have within: "clock ?wq - clock (world ?st1) \<le> ttl (dedup_state async_start)"
    by (simp add: async_start_def NewMemoryStore_def probe0_def)
  from Handler_second_delivery [OF async_cfg_fields(1) p within, of fresh_response]
  have second: "Handler demo_router async_cfg (Inr ''{}'') (Inr ?meta)
          (async_start
             \<lparr>dedup_state :=
                snd (MemoryStore_Store (dedup_state async_start) 0 ''event-123''),
              world := ?wq, response := fresh_response\<rparr>)
        = (Inr (), ?st1)"
    by simp
  have rest: "trail ?wq = []" "async_state async_start = full_pool"
    by (simp_all add: probe0_def async_start_def)
  from first second rest demo_router_fields(1) show ?thesis by simp
qed

text \<open>
  Claim C10. With a store configured, whenever the hand-over of a non-duplicate event
  returns, \<open>Store\<close> is called next with the event's id, whatever the hand-over
  returned: after a dispatch in place that returned an error or none; after any
  \<open>Submit\<close>; and in particular after the \<open>Submit\<close> of a worker pool whose open
  queue was full, which dropped the event and told the observer \<open>ErrQueueFull\<close>.
  With the in-memory store the id is then reported as existing at every clock reading
  within the time to live.
\<close>

theorem Handler_marks_after_any_outcome:
  "(dedup cfg = Some store \<and> async cfg = None
      \<and> Dispatch rt ev (world st) = (Inr res, w')
    \<longrightarrow>
    Handler_process rt cfg ev st
      = (Inr (),
         st\<lparr>dedup_state := snd (Store store w' (EventID (Metadata ev)) (dedup_state st)),
            world := w', response := WriteHeader 200 (response st)\<rparr>))
   \<and> (dedup cfg = Some store \<and> async cfg = Some a
      \<and> Submit a ev rt (async_state st) (world st) = (Inr u, p', w')
    \<longrightarrow>
    Handler_process rt cfg ev st
      = (Inr (),
         st\<lparr>dedup_state := snd (Store store w' (EventID (Metadata ev)) (dedup_state st)),
            async_state := p', world := w', response := WriteHeader 200 (response st)\<rparr>))
   \<and> (dedup cfgp = Some storep \<and> async cfgp = Some WorkerPool_iface
      \<and> \<not> closed (queue (async_state stp)) \<and> queue_full (queue (async_state stp))
      \<and> wq = (case WorkerPool.onError (async_state stp) of
                 Some obs \<Rightarrow> obs ev ErrQueueFull (world stp)
               | None \<Rightarrow> world stp)
    \<longrightarrow>
    Handler_process rtp cfgp ev stp
      = (Inr (),
         stp\<lparr>dedup_state := snd (Store storep wq (EventID (Metadata ev)) (dedup_state stp)),
             world := wq, response := WriteHeader 200 (response stp)\<rparr>))
   \<and> (dedup cfgm = Some MemoryStore_iface
      \<and> Handler_process rtm cfgm ev stm = (Inr (), stm')
      \<and> t - clock (world stm') \<le> ttl (dedup_state stm)
    \<longrightarrow>
    MemoryStore_Exists (dedup_state stm') t (EventID (Metadata ev)) = (True, None))"
proof (intro conjI impI)
  assume a: "dedup cfg = Some store \<and> async cfg = None
      \<and> Dispatch rt ev (world st) = (Inr res, w')"
  then have n: "async cfg = None" and d: "Dispatch rt ev (world st) = (Inr res, w')"
    by simp_all
  show "Handler_process rt cfg ev st
      = (Inr (),
         st\<lparr>dedup_state := snd (Store store w' (EventID (Metadata ev)) (dedup_state st)),
            world := w', response := WriteHeader 200 (response st)\<rparr>)"
    unfolding Handler_process_sync [OF n d] using a by simp
next
  assume a: "dedup cfg = Some store \<and> async cfg = Some a
      \<and> Submit a ev rt (async_state st) (world st) = (Inr u, p', w')"
  then have s: "async cfg = Some a"
    and d: "Submit a ev rt (async_state st) (world st) = (Inr u, p', w')" by simp_all
  show "Handler_process rt cfg ev st
      = (Inr (),
         st\<lparr>dedup_state := snd (Store store w' (EventID (Metadata ev)) (dedup_state st)),
            async_state := p', world := w', response := WriteHeader 200 (response st)\<rparr>)"
    unfolding Handler_process_async [OF s d] using a by simp
next
  assume a: "dedup cfgp = Some storep \<and> async cfgp = Some WorkerPool_iface
      \<and> \<not> closed (queue (async_state stp)) \<and> queue_full (queue (async_state stp))
      \<and> wq = (case WorkerPool.onError (async_state stp) of
                 Some obs \<Rightarrow> obs ev ErrQueueFull (world stp)
               | None \<Rightarrow> world stp)"
  then have s: "async cfgp = Some WorkerPool_iface" by simp
  have "WorkerPool_Submit ev rtp (async_state stp) (world stp) = (Inr (), async_state stp, wq)"
    using a by (simp add: WorkerPool_Submit_full)
  then have d: "Submit WorkerPool_iface ev rtp (async_state stp) (world stp)
      = (Inr (), async_state stp, wq)"
    by (simp add: WorkerPool_iface_def)
  show "Handler_process rtp cfgp ev stp
      = (Inr (),
         stp\<lparr>dedup_state := snd (Store storep wq (EventID (Metadata ev)) (dedup_state stp)),
             world := wq, response := WriteHeader 200 (response stp)\<rparr>)"
    unfolding Handler_process_async [OF s d] using a by simp
next
  assume a: "dedup cfgm = Some MemoryStore_iface
      \<and> Handler_process rtm cfgm ev stm = (Inr (), stm')
      \<and> t - clock (world stm') \<le> ttl (dedup_state stm)"
  then have p: "Handler_process rtm cfgm ev stm = (Inr (), stm')"
    and d: "dedup cfgm = Some MemoryStore_iface" by simp_all
  have m: "dedup_state stm'
      = snd (MemoryStore_Store (dedup_state stm) (clock (world stm')) (EventID (Metadata ev)))"
    using Handler_process_marks [OF p d] by (simp add: MemoryStore_iface_simps)
  show "MemoryStore_Exists (dedup_state stm') t (EventID (Metadata ev)) = (True, None)"
    unfolding m using a by (intro MemoryStore_Exists_after_Store) simp
qed

theorem Handler_marks_after_any_outcome_witness:
  "Handler_process demo_router sync_cfg failing_event sync_start
     = (Inr (),
        sync_start
          \<lparr>dedup_state := snd (MemoryStore_Store (dedup_state sync_start) 0 ''event-9''),
           world := probe0\<lparr>trail := [''G'', ''observer'']\<rparr>,
           response := WriteHeader 200 fresh_response\<rparr>)
   \<and> Handler_process demo_router async_cfg failing_event async_start
     = (Inr (),
        async_start
          \<lparr>dedup_state := snd (MemoryStore_Store (dedup_state async_start) 0 ''event-9''),
           world := probe0\<lparr>observed := [(failing_event, ErrQueueFull)]\<rparr>,
           response := WriteHeader 200 fresh_response\<rparr>)
   \<and> MemoryStore_Exists
        (dedup_state
          (async_start
            \<lparr>dedup_state := snd (MemoryStore_Store (dedup_state async_start) 0 ''event-9''),
             world := probe0\<lparr>observed := [(failing_event, ErrQueueFull)]\<rparr>,
             response := WriteHeader 200 fresh_response\<rparr>))
        10 (EventID (Metadata failing_event))
     = (True, None)"
proof -
  let ?wf = "probe0\<lparr>trail := [''G'', ''observer'']\<rparr>"
  let ?wq = "probe0\<lparr>observed := [(failing_event, ErrQueueFull)]\<rparr>"
  let ?sta = "async_start
          \<lparr>dedup_state := snd (MemoryStore_Store (dedup_state async_start) 0 ''event-9''),
           world := ?wq, response := WriteHeader 200 fresh_response\<rparr>"
  have id: "EventID (Metadata failing_event) = ''event-9''"
    by (simp add: failing_event_def mk_meta_def)
  have d: "Dispatch demo_router failing_event (world sync_start)
      = (Inr (Some (AppError ''processing failed'')), ?wf)"
    unfolding failing_event_def Dispatch_demo_fail by (simp add: sync_start_def probe0_def)
  have pre1: "dedup sync_cfg = Some MemoryStore_iface \<and> async sync_cfg = None
      \<and> Dispatch demo_router failing_event (world sync_start)
          = (Inr (Some (AppError ''processing failed'')), ?wf)"
    using d by (simp add: sync_cfg_fields)
  have pre3: "dedup async_cfg = Some MemoryStore_iface \<and> async async_cfg = Some WorkerPool_iface
      \<and> \<not> closed (queue (async_state async_start))
      \<and> queue_full (queue (async_state async_start))
      \<and> ?wq = (case WorkerPool.onError (async_state async_start) of
                 Some obs \<Rightarrow> obs failing_event ErrQueueFull (world async_start)
               | None \<Rightarrow> world async_start)"
    by (simp add: async_cfg_fields)
       (simp add: async_start_def full_pool_def demo_pool_def queue_full_def record_failure_def
          probe0_def)
  note T = Handler_marks_after_any_outcome [where cfg = sync_cfg and store = MemoryStore_iface
      and rt = demo_router and ev = failing_event and st = sync_start
      and res = "Some (AppError ''processing failed'')" and w' = ?wf
      and cfgp = async_cfg and storep = MemoryStore_iface and stp = async_start and wq = ?wq
      and rtp = demo_router and cfgm = async_cfg and rtm = demo_router and stm = async_start
      and stm' = ?sta and t = 10]
  have one: "Handler_process demo_router sync_cfg failing_event sync_start
     = (Inr (),
        sync_start
          \<lparr>dedup_state := snd (MemoryStore_Store (dedup_state sync_start) 0 ''event-9''),
           world := ?wf, response := WriteHeader 200 fresh_response\<rparr>)"
    using T [THEN conjunct1, THEN mp, OF pre1]
    by (simp add: MemoryStore_iface_simps id) (simp add: sync_start_def probe0_def)
  have two: "Handler_process demo_router async_cfg failing_event async_start = (Inr (), ?sta)"
    using T [THEN conjunct2, THEN conjunct2, THEN conjunct1, THEN mp, OF pre3]
    by (simp add: MemoryStore_iface_simps id) (simp add: async_start_def probe0_def)
  have pre4: "dedup async_cfg = Some MemoryStore_iface
      \<and> Handler_process demo_router async_cfg failing_event async_start = (Inr (), ?sta)
      \<and> 10 - clock (world ?sta) \<le> ttl (dedup_state async_start)"
    using two by (simp add: async_cfg_fields) (simp add: async_start_def NewMemoryStore_def probe0_def)
  have three: "MemoryStore_Exists (dedup_state ?sta) 10 (EventID (Metadata failing_event))
     = (True, None)"
    using T [THEN conjunct2, THEN conjunct2, THEN conjunct2, THEN mp, OF pre4] .
  from one two three show ?thesis by simp
qed

end
